theory Spec2Isabelle
  imports Complex_Main "HOL-Library.AList" "HOL-Library.Sublist" "HOL-Library.Log_Nat"
begin

section \<open>Values exchanged with the model\<close>

text \<open>
  The navigator receives JSON text from a language model and works on the Python values
  that \<^verbatim>\<open>json.loads\<close> makes of it.  Text is an Isabelle \<^typ>\<open>string\<close>; the characters
  that carry structure (braces, quotes, back-ticks, white space, action names, keys) are
  ASCII, and a symbol outside ASCII is the sequence of its UTF-8 bytes.  A Python
  \<^verbatim>\<open>float\<close> is the rational it denotes, or one of the three special values.  A Python
  \<^verbatim>\<open>dict\<close> with string keys is an association list in insertion order; \<^verbatim>\<open>None\<close> is
  \<open>JNull\<close>.
\<close>

datatype pyfloat = Finite rat | PosInf | NegInf | NaN

datatype json =
    JNull
  | JBool bool
  | JInt int
  | JFloat pyfloat
  | JStr string
  | JList "json list"
  | JObj "(string \<times> json) list"

text \<open>The exceptions that the modelled code can meet, by class.\<close>

datatype pyexn =
    JSONDecodeError
  | TypeError
  | AttributeError
  | ValueError
  | OverflowError
  | IndexError
  | KeyError
  | RecursionError

text \<open>\<^verbatim>\<open>d.get(key, default)\<close> on a dict.\<close>

definition dict_get :: "(string \<times> json) list \<Rightarrow> string \<Rightarrow> json \<Rightarrow> json" where
  "dict_get d k dflt = (case map_of d k of Some v \<Rightarrow> v | None \<Rightarrow> dflt)"

text \<open>\<^verbatim>\<open>x.get(key, default)\<close> on any value: only a dict has the method.\<close>

definition py_get :: "json \<Rightarrow> string \<Rightarrow> json \<Rightarrow> pyexn + json" where
  "py_get x k dflt = (case x of JObj d \<Rightarrow> Inr (dict_get d k dflt) | _ \<Rightarrow> Inl AttributeError)"

text \<open>Lists and dicts cannot be dictionary keys: looking one up raises \<^verbatim>\<open>TypeError\<close>.\<close>

fun hashable :: "json \<Rightarrow> bool" where
  "hashable (JList _) = False"
| "hashable (JObj _) = False"
| "hashable _ = True"

section \<open>Plans\<close>

datatype OperationType = READ_ONLY | MODIFY | DESTRUCTIVE | SYSTEM

text \<open>
  The dataclass \<^verbatim>\<open>ExecutionPlan\<close>.  The constructor stores whatever it is given, so the
  fields filled from the model's answer hold arbitrary JSON values.
\<close>

record ExecutionPlan =
  summary :: json
  steps :: json
  overall_confidence :: json
  operation_type :: OperationType
  requires_confirmation :: bool

definition op_type_map :: "string \<Rightarrow> OperationType option" where
  "op_type_map = map_of
     [(''READ_ONLY'', READ_ONLY), (''MODIFY'', MODIFY),
      (''DESTRUCTIVE'', DESTRUCTIVE), (''SYSTEM'', SYSTEM)]"

text \<open>
  \<^verbatim>\<open>ReasoningEngine._build_plan\<close>.  \<^verbatim>\<open>plan_data.get\<close> needs a dict, and
  \<^verbatim>\<open>op_type_map.get(op_type_str, ...)\<close> hashes its key.  A key that is not one of the four
  strings (any other string, a number, a boolean, \<^verbatim>\<open>None\<close>) gives the default.
\<close>

definition build_plan :: "json \<Rightarrow> pyexn + ExecutionPlan" where
  "build_plan plan_data =
     (case plan_data of
        JObj d \<Rightarrow>
          (let op_type_str = dict_get d ''operation_type'' (JStr ''READ_ONLY'') in
           if \<not> hashable op_type_str then Inl TypeError
           else
             let op_type = (case op_type_str of
                              JStr s \<Rightarrow> (case op_type_map s of Some t \<Rightarrow> t | None \<Rightarrow> READ_ONLY)
                            | _ \<Rightarrow> READ_ONLY);
                 requires_confirm = (op_type \<in> set [DESTRUCTIVE, SYSTEM, MODIFY])
             in Inr \<lparr> summary = dict_get d ''summary'' (JStr ''No summary provided''),
                      steps = dict_get d ''steps'' (JList []),
                      overall_confidence = dict_get d ''overall_confidence'' (JFloat (Finite 0)),
                      operation_type = op_type,
                      requires_confirmation = requires_confirm \<rparr>)
      | _ \<Rightarrow> Inl AttributeError)"

section \<open>Text operations of the Python library\<close>

text \<open>
  White space as \<^verbatim>\<open>str.isspace\<close> sees it, which is also what \<^verbatim>\<open>\s\<close> matches in a
  pattern and what \<^verbatim>\<open>str.strip()\<close> removes.  In UTF-8 such a character has one byte
  (tab, line feed, vertical tab, form feed, carriage return, the separators 1C to 1F,
  the space), two bytes (U+0085 and U+00A0) or three (U+1680, U+2000 to U+200A, U+2028,
  U+2029, U+202F, U+205F and U+3000).
\<close>

definition space1 :: "char \<Rightarrow> bool" where
  "space1 a = (a \<in> set [CHR 0x09, CHR 0x0A, CHR 0x0B, CHR 0x0C, CHR 0x0D,
                         CHR 0x1C, CHR 0x1D, CHR 0x1E, CHR 0x1F, CHR 0x20])"

definition space2 :: "char \<Rightarrow> char \<Rightarrow> bool" where
  "space2 a b = (a = CHR 0xC2 \<and> (b = CHR 0x85 \<or> b = CHR 0xA0))"

definition space3 :: "char \<Rightarrow> char \<Rightarrow> char \<Rightarrow> bool" where
  "space3 a b c =
     ((a = CHR 0xE1 \<and> b = CHR 0x9A \<and> c = CHR 0x80)
      \<or> (a = CHR 0xE2 \<and> b = CHR 0x80
          \<and> c \<in> set [CHR 0x80, CHR 0x81, CHR 0x82, CHR 0x83, CHR 0x84, CHR 0x85, CHR 0x86,
                      CHR 0x87, CHR 0x88, CHR 0x89, CHR 0x8A, CHR 0xA8, CHR 0xA9, CHR 0xAF])
      \<or> (a = CHR 0xE2 \<and> b = CHR 0x81 \<and> c = CHR 0x9F)
      \<or> (a = CHR 0xE3 \<and> b = CHR 0x80 \<and> c = CHR 0x80))"

text \<open>
  The text without the white-space characters it starts with; the three tests say
  which sequences of one, two and three bytes are dropped.
\<close>

fun lstrip_with ::
  "(char \<Rightarrow> bool) \<Rightarrow> (char \<Rightarrow> char \<Rightarrow> bool) \<Rightarrow> (char \<Rightarrow> char \<Rightarrow> char \<Rightarrow> bool) \<Rightarrow> string \<Rightarrow> string" where
  "lstrip_with p1 p2 p3 (a # b # c # s) =
     (if p1 a then lstrip_with p1 p2 p3 (b # c # s)
      else if p2 a b then lstrip_with p1 p2 p3 (c # s)
      else if p3 a b c then lstrip_with p1 p2 p3 s
      else a # b # c # s)"
| "lstrip_with p1 p2 p3 [a, b] =
     (if p1 a then lstrip_with p1 p2 p3 [b]
      else if p2 a b then []
      else [a, b])"
| "lstrip_with p1 p2 p3 [a] = (if p1 a then [] else [a])"
| "lstrip_with p1 p2 p3 [] = []"

definition lstrip :: "string \<Rightarrow> string" where
  "lstrip s = lstrip_with space1 space2 space3 s"

text \<open>At the end of the text the same characters are met with their bytes reversed.\<close>

definition rstrip :: "string \<Rightarrow> string" where
  "rstrip s = rev (lstrip_with space1 (\<lambda>a b. space2 b a) (\<lambda>a b c. space3 c b a) (rev s))"

definition strip :: "string \<Rightarrow> string" where
  "strip s = rstrip (lstrip s)"

text \<open>\<^verbatim>\<open>s.split(sep)\<close> for a one-character separator: always at least one piece.\<close>

fun split_on :: "char \<Rightarrow> string \<Rightarrow> string list" where
  "split_on sep [] = [[]]"
| "split_on sep (c # cs) =
     (if c = sep then [] # split_on sep cs
      else (case split_on sep cs of p # ps \<Rightarrow> (c # p) # ps | [] \<Rightarrow> [[c]]))"

text \<open>\<^verbatim>\<open>sep.join(parts)\<close>.\<close>

fun join_with :: "string \<Rightarrow> string list \<Rightarrow> string" where
  "join_with sep [] = []"
| "join_with sep [p] = p"
| "join_with sep (p # q # ps) = p @ sep @ join_with sep (q # ps)"

text \<open>\<^verbatim>\<open>s.find(c)\<close>: the first index of the character, \<open>None\<close> for \<^verbatim>\<open>-1\<close>.\<close>

definition find_char :: "char \<Rightarrow> string \<Rightarrow> nat option" where
  "find_char c s = (if c \<in> set s then Some (length (takeWhile (\<lambda>x. x \<noteq> c) s)) else None)"

fun drop_prefix :: "string \<Rightarrow> string \<Rightarrow> string option" where
  "drop_prefix [] s = Some s"
| "drop_prefix (p # ps) [] = None"
| "drop_prefix (p # ps) (c # cs) = (if p = c then drop_prefix ps cs else None)"

section \<open>The response parser\<close>

text \<open>
  The three patterns of strategy 1 have one shape: an opening fence, optional white
  space, a group that runs from a left brace to a right brace and is matched lazily
  (\<^verbatim>\<open>{.*?}\<close> with \<^verbatim>\<open>re.DOTALL\<close>), optional white space, the closing fence.  The
  inline pattern has no white space around the group.  White space is matched greedily,
  and since neither a brace nor a back-tick is white space, giving some of it back
  never helps: the match at a position is decided by the longest run.

  \<open>lazy_close\<close> reads the part after the left brace and stops at the first right brace
  after which the rest of the pattern matches; \<open>match_fenced_at\<close> is a match that starts
  at the head of the text and yields group 1; \<open>search_fenced\<close> is \<^verbatim>\<open>re.search\<close>, which
  takes the leftmost start.
\<close>

fun lazy_close :: "(string \<Rightarrow> bool) \<Rightarrow> string \<Rightarrow> string option" where
  "lazy_close tail_ok [] = None"
| "lazy_close tail_ok (c # cs) =
     (if c = CHR 0x7D \<and> tail_ok cs then Some [c]
      else map_option ((#) c) (lazy_close tail_ok cs))"

definition skip_ws :: "bool \<Rightarrow> string \<Rightarrow> string" where
  "skip_ws ws s = (if ws then lstrip s else s)"

definition match_fenced_at :: "string \<Rightarrow> bool \<Rightarrow> string \<Rightarrow> string \<Rightarrow> string option" where
  "match_fenced_at opener ws closer s =
     (case drop_prefix opener s of
        None \<Rightarrow> None
      | Some r \<Rightarrow>
          (case skip_ws ws r of
             [] \<Rightarrow> None
           | c # body \<Rightarrow>
               if c = CHR 0x7B
               then map_option ((#) c) (lazy_close (\<lambda>t. prefix closer (skip_ws ws t)) body)
               else None))"

fun search_fenced :: "string \<Rightarrow> bool \<Rightarrow> string \<Rightarrow> string \<Rightarrow> string option" where
  "search_fenced opener ws closer [] = match_fenced_at opener ws closer []"
| "search_fenced opener ws closer (c # cs) =
     (case match_fenced_at opener ws closer (c # cs) of
        Some g \<Rightarrow> Some g
      | None \<Rightarrow> search_fenced opener ws closer cs)"

text \<open>The back-tick fences: three back-ticks and \<^verbatim>\<open>json\<close>, three back-ticks, one.\<close>

definition fence3 :: string where
  "fence3 = [CHR 0x60, CHR 0x60, CHR 0x60]"

definition code_block_patterns :: "(string \<times> bool \<times> string) list" where
  "code_block_patterns =
     [(fence3 @ ''json'', True, fence3), (fence3, True, fence3), ([CHR 0x60], False, [CHR 0x60])]"

text \<open>
  \<^verbatim>\<open>json.loads\<close> is a parameter \<open>loads\<close> of the parser: it returns a value or raises.
  Strategy 1 tries the patterns in order; a bare \<^verbatim>\<open>except\<close> sends any failure of
  \<open>loads\<close> on to the next pattern.
\<close>

fun try_patterns ::
  "(string \<Rightarrow> pyexn + json) \<Rightarrow> (string \<times> bool \<times> string) list \<Rightarrow> string \<Rightarrow> json option" where
  "try_patterns loads [] response = None"
| "try_patterns loads ((opener, ws, closer) # ps) response =
     (case search_fenced opener ws closer response of
        None \<Rightarrow> try_patterns loads ps response
      | Some g \<Rightarrow>
          (case loads g of
             Inr v \<Rightarrow> Some v
           | Inl e \<Rightarrow> try_patterns loads ps response))"

text \<open>
  The scan of strategy 2, from index \<open>i\<close> on: the brace count, whether the scan is inside
  a string, whether the next character is escaped.  It yields \<^verbatim>\<open>json_end\<close> when the count
  comes back to zero and \<open>None\<close> when the text ends first (\<^verbatim>\<open>json_end\<close> stays \<^verbatim>\<open>-1\<close>).
\<close>

fun scan_braces :: "string \<Rightarrow> nat \<Rightarrow> int \<Rightarrow> bool \<Rightarrow> bool \<Rightarrow> nat option" where
  "scan_braces [] i brace_count in_string escape_next = None"
| "scan_braces (char # rest) i brace_count in_string escape_next =
     (if escape_next then scan_braces rest (i + 1) brace_count in_string False
      else if char = CHR 0x5C then scan_braces rest (i + 1) brace_count in_string True
      else if char = CHR 0x22 \<and> \<not> escape_next
        then scan_braces rest (i + 1) brace_count (\<not> in_string) escape_next
      else if \<not> in_string then
        (if char = CHR 0x7B then scan_braces rest (i + 1) (brace_count + 1) in_string escape_next
         else if char = CHR 0x7D then
           (if brace_count - 1 = 0 then Some (i + 1)
            else scan_braces rest (i + 1) (brace_count - 1) in_string escape_next)
         else scan_braces rest (i + 1) brace_count in_string escape_next)
      else scan_braces rest (i + 1) brace_count in_string escape_next)"

text \<open>
  \<^verbatim>\<open>re.sub(r',(\s*[}\]])', r'\1', json_str)\<close>: a comma goes when white space and then a
  closing brace or bracket follow it.  The characters of a match after its comma are
  kept as they are, and none of them is a comma, so the substitution is a filter.
\<close>

definition closes_next :: "string \<Rightarrow> bool" where
  "closes_next s = (case lstrip s of
                      [] \<Rightarrow> False
                    | c # _ \<Rightarrow> c = CHR 0x7D \<or> c = CHR 0x5D)"

fun remove_trailing_commas :: "string \<Rightarrow> string" where
  "remove_trailing_commas [] = []"
| "remove_trailing_commas (c # cs) =
     (if c = CHR 0x2C \<and> closes_next cs then remove_trailing_commas cs
      else c # remove_trailing_commas cs)"

text \<open>
  Strategies 2 and 3.  The first \<^verbatim>\<open>json.loads\<close> is guarded by
  \<^verbatim>\<open>except json.JSONDecodeError\<close> only, so any other exception leaves the function; the
  repaired parse is under a bare \<^verbatim>\<open>except\<close>.
\<close>

definition balanced_object :: "(string \<Rightarrow> pyexn + json) \<Rightarrow> string \<Rightarrow> pyexn + json option" where
  "balanced_object loads response =
     (case find_char (CHR 0x7B) response of
        None \<Rightarrow> Inr None
      | Some json_start \<Rightarrow>
          (case scan_braces (drop json_start response) json_start 0 False False of
             None \<Rightarrow> Inr None
           | Some json_end \<Rightarrow>
               if json_end > json_start then
                 (let json_str = take (json_end - json_start) (drop json_start response) in
                  case loads json_str of
                    Inr v \<Rightarrow> Inr (Some v)
                  | Inl JSONDecodeError \<Rightarrow>
                      (case loads (remove_trailing_commas json_str) of
                         Inr v \<Rightarrow> Inr (Some v)
                       | Inl e \<Rightarrow> Inr None)
                  | Inl e \<Rightarrow> Inl e)
               else Inr None))"

text \<open>
  Strategy 5: the loop over the lines, with the accumulated lines and the flag
  \<^verbatim>\<open>in_json\<close> as its state.
\<close>

fun line_fallback ::
  "(string \<Rightarrow> pyexn + json) \<Rightarrow> string list \<Rightarrow> string list \<Rightarrow> bool \<Rightarrow> json option" where
  "line_fallback loads [] json_lines in_json = None"
| "line_fallback loads (line # rest) json_lines in_json =
     (let in_json' = (if CHR 0x7B \<in> set line \<and> \<not> in_json then True else in_json);
          json_lines' = (if in_json' then json_lines @ [line] else json_lines)
      in if CHR 0x7D \<in> set line \<and> in_json' then
           (case loads (join_with [CHR 0x0A] json_lines') of
              Inr v \<Rightarrow> Some v
            | Inl e \<Rightarrow> line_fallback loads rest json_lines' in_json')
         else line_fallback loads rest json_lines' in_json')"

text \<open>
  \<^verbatim>\<open>ReasoningEngine._extract_json\<close>.  The result is the Python value returned, with
  \<open>JNull\<close> for \<^verbatim>\<open>None\<close>, or the exception that leaves the function.
\<close>

definition extract_json :: "(string \<Rightarrow> pyexn + json) \<Rightarrow> string \<Rightarrow> pyexn + json" where
  "extract_json loads response =
     (case try_patterns loads code_block_patterns response of
        Some v \<Rightarrow> Inr v
      | None \<Rightarrow>
          (case balanced_object loads response of
             Inl e \<Rightarrow> Inl e
           | Inr (Some v) \<Rightarrow> Inr v
           | Inr None \<Rightarrow>
               (case loads (strip response) of
                  Inr v \<Rightarrow> Inr v
                | Inl e \<Rightarrow>
                    (case line_fallback loads (split_on (CHR 0x0A) response) [] False of
                       Some v \<Rightarrow> Inr v
                     | None \<Rightarrow> Inr JNull))))"

section \<open>The library's JSON decoder\<close>

text \<open>
  A model of \<^verbatim>\<open>json.loads\<close> for the closed examples: the grammar of the standard
  decoder (strict mode, with the constants \<^verbatim>\<open>NaN\<close>, \<^verbatim>\<open>Infinity\<close> and
  \<^verbatim>\<open>-Infinity\<close> it accepts).  Integers are unbounded; a literal with a fraction or an
  exponent is rounded to the nearest double, ties to even.  The properties of the parser
  and the planner below hold for every \<open>loads\<close>; this one instantiates them.
\<close>

definition json_ws :: "char \<Rightarrow> bool" where
  "json_ws c = (c \<in> set [CHR 0x20, CHR 0x09, CHR 0x0A, CHR 0x0D])"

definition skip_json_ws :: "string \<Rightarrow> string" where
  "skip_json_ws s = dropWhile json_ws s"

definition is_digit :: "char \<Rightarrow> bool" where
  "is_digit c = (c \<in> set ''0123456789'')"

definition digit_val :: "char \<Rightarrow> nat" where
  "digit_val c = of_char c - 48"

definition digits_val :: "string \<Rightarrow> nat" where
  "digits_val ds = foldl (\<lambda>n c. 10 * n + digit_val c) 0 ds"

definition pow2 :: "int \<Rightarrow> rat" where
  "pow2 k = (if k \<ge> 0 then 2 ^ nat k else 1 / 2 ^ nat (- k))"

definition pow10 :: "int \<Rightarrow> rat" where
  "pow10 k = (if k \<ge> 0 then 10 ^ nat k else 1 / 10 ^ nat (- k))"

definition round_half_even :: "rat \<Rightarrow> int" where
  "round_half_even q =
     (let f = \<lfloor>q\<rfloor>; r = q - of_int f
      in if r < 1 / 2 then f else if r > 1 / 2 then f + 1 else if even f then f else f + 1)"

text \<open>
  The double nearest to a rational: 53 bits of mantissa, exponents down to the
  subnormal range, infinity from \<open>2 ^ 1024\<close> on.
\<close>

definition float_of_rat :: "rat \<Rightarrow> pyfloat" where
  "float_of_rat q =
     (if q = 0 then Finite 0
      else
        let a = \<bar>q\<bar>;
            b = bitlen (fst (quotient_of a)) - bitlen (snd (quotient_of a));
            e = (if pow2 b \<le> a then b else b - 1);
            k = max (e - 52) (- 1074);
            v = of_int (round_half_even (a / pow2 k)) * pow2 k
        in if v \<ge> pow2 1024 then (if q > 0 then PosInf else NegInf)
           else Finite (if q > 0 then v else - v))"

text \<open>The exponent part \<^verbatim>\<open>[eE][-+]?[0-9]+\<close>, if it is there.\<close>

definition match_exponent :: "string \<Rightarrow> (int \<times> string) option" where
  "match_exponent s =
     (case s of
        [] \<Rightarrow> None
      | e # r \<Rightarrow>
          if e = CHR ''e'' \<or> e = CHR ''E'' then
            (let neg = (case r of c # _ \<Rightarrow> c = CHR ''-'' | [] \<Rightarrow> False);
                 r' = (case r of c # cs \<Rightarrow> if c = CHR ''-'' \<or> c = CHR ''+'' then cs else r | [] \<Rightarrow> r);
                 ds = takeWhile is_digit r'
             in if ds = [] then None
                else Some ((if neg then - int (digits_val ds) else int (digits_val ds)),
                           dropWhile is_digit r'))
          else None)"

text \<open>
  \<^verbatim>\<open>NUMBER_RE\<close> at the head of the text: an optional minus, \<^verbatim>\<open>0\<close> or a digit string
  without leading zero, then an optional fraction and an optional exponent.
\<close>

definition match_number :: "string \<Rightarrow> (json \<times> string) option" where
  "match_number s =
     (let neg = (case s of c # _ \<Rightarrow> c = CHR ''-'' | [] \<Rightarrow> False);
          s1 = (if neg then tl s else s)
      in case s1 of
           [] \<Rightarrow> None
         | d # ds \<Rightarrow>
             if \<not> is_digit d then None
             else
               let ints = (if d = CHR ''0'' then [d] else d # takeWhile is_digit ds);
                   s2 = (if d = CHR ''0'' then ds else dropWhile is_digit ds);
                   has_frac = (case s2 of p # q # _ \<Rightarrow> p = CHR ''.'' \<and> is_digit q | _ \<Rightarrow> False);
                   frac = (if has_frac then takeWhile is_digit (tl s2) else []);
                   s3 = (if has_frac then dropWhile is_digit (tl s2) else s2);
                   sgn = (if neg then - 1 else 1)
               in case match_exponent s3 of
                    None \<Rightarrow>
                      if has_frac
                      then Some (JFloat (float_of_rat
                              (of_int sgn * (of_nat (digits_val (ints @ frac)) * pow10 (- int (length frac))))), s3)
                      else Some (JInt (sgn * int (digits_val ints)), s3)
                  | Some (ex, s4) \<Rightarrow>
                      Some (JFloat (float_of_rat
                              (of_int sgn * (of_nat (digits_val (ints @ frac)) * pow10 (ex - int (length frac))))), s4))"

definition hex_val :: "char \<Rightarrow> nat option" where
  "hex_val c =
     (if is_digit c then Some (digit_val c)
      else if c \<in> set ''abcdef'' then Some (of_char c - 87)
      else if c \<in> set ''ABCDEF'' then Some (of_char c - 55)
      else None)"

text \<open>The four hexadecimal digits of a \<^verbatim>\<open>\uXXXX\<close> escape.\<close>

definition decode_u :: "string \<Rightarrow> nat option" where
  "decode_u s =
     (case map hex_val (take 4 s) of
        [Some a, Some b, Some c, Some d] \<Rightarrow> Some (((a * 16 + b) * 16 + c) * 16 + d)
      | _ \<Rightarrow> None)"

text \<open>A code point as UTF-8 bytes.\<close>

definition utf8 :: "nat \<Rightarrow> string" where
  "utf8 n =
     (if n < 0x80 then [char_of n]
      else if n < 0x800 then [char_of (0xC0 + n div 64), char_of (0x80 + n mod 64)]
      else if n < 0x10000 then
        [char_of (0xE0 + n div 4096), char_of (0x80 + n div 64 mod 64), char_of (0x80 + n mod 64)]
      else
        [char_of (0xF0 + n div 262144), char_of (0x80 + n div 4096 mod 64),
         char_of (0x80 + n div 64 mod 64), char_of (0x80 + n mod 64)])"

definition backslash_table :: "char \<Rightarrow> char option" where
  "backslash_table = map_of
     [(CHR 0x22, CHR 0x22), (CHR 0x5C, CHR 0x5C), (CHR ''/'', CHR ''/''),
      (CHR ''b'', CHR 0x08), (CHR ''f'', CHR 0x0C), (CHR ''n'', CHR 0x0A),
      (CHR ''r'', CHR 0x0D), (CHR ''t'', CHR 0x09)]"

text \<open>
  \<^verbatim>\<open>scanstring\<close>, from after the opening quote: the characters decoded so far, then the
  text.  A control character, an unknown escape and the end of the text are errors; a
  high surrogate followed by an escaped low surrogate is one code point.
\<close>

fun scan_string :: "string \<Rightarrow> string \<Rightarrow> pyexn + (string \<times> string)" where
  "scan_string acc [] = Inl JSONDecodeError"
| "scan_string acc [c] =
     (if c = CHR 0x22 then Inr (acc, [])
      else if c = CHR 0x5C \<or> (of_char c :: nat) < 0x20 then Inl JSONDecodeError
      else scan_string (acc @ [c]) [])"
| "scan_string acc (c # e # es) =
     (if c = CHR 0x22 then Inr (acc, e # es)
      else if c = CHR 0x5C then
        (if e = CHR ''u'' then
           (case decode_u es of
              None \<Rightarrow> Inl JSONDecodeError
            | Some uni \<Rightarrow>
                if 0xD800 \<le> uni \<and> uni \<le> 0xDBFF \<and> prefix [CHR 0x5C, CHR ''u''] (drop 4 es) then
                  (case decode_u (drop 6 es) of
                     None \<Rightarrow> Inl JSONDecodeError
                   | Some uni2 \<Rightarrow>
                       if 0xDC00 \<le> uni2 \<and> uni2 \<le> 0xDFFF
                       then scan_string
                              (acc @ utf8 (0x10000 + (uni - 0xD800) * 1024 + (uni2 - 0xDC00)))
                              (drop 10 es)
                       else scan_string (acc @ utf8 uni) (drop 4 es))
                else scan_string (acc @ utf8 uni) (drop 4 es))
         else
           (case backslash_table e of
              None \<Rightarrow> Inl JSONDecodeError
            | Some ch \<Rightarrow> scan_string (acc @ [ch]) es))
      else if (of_char c :: nat) < 0x20 then Inl JSONDecodeError
      else scan_string (acc @ [c]) (e # es))"

text \<open>
  \<^verbatim>\<open>scan_once\<close> with \<^verbatim>\<open>JSONArray\<close> and \<^verbatim>\<open>JSONObject\<close>.  The first argument bounds
  the depth of the calls; running out of it is the decoder's \<^verbatim>\<open>RecursionError\<close>.
  \<open>parse_elems\<close> stands at a value of a non-empty array, \<open>parse_members\<close> at the quote
  that opens a key; \<^verbatim>\<open>dict(pairs)\<close> keeps a repeated key at its first place with its last
  value.
\<close>

fun parse_value :: "nat \<Rightarrow> string \<Rightarrow> pyexn + (json \<times> string)"
  and parse_elems :: "nat \<Rightarrow> json list \<Rightarrow> string \<Rightarrow> pyexn + (json \<times> string)"
  and parse_members :: "nat \<Rightarrow> (string \<times> json) list \<Rightarrow> string \<Rightarrow> pyexn + (json \<times> string)" where
  "parse_value 0 s = Inl RecursionError"
| "parse_value (Suc n) [] = Inl JSONDecodeError"
| "parse_value (Suc n) (c # cs) =
     (if c = CHR 0x22 then
        (case scan_string [] cs of Inl e \<Rightarrow> Inl e | Inr (str, rest) \<Rightarrow> Inr (JStr str, rest))
      else if c = CHR 0x7B then
        (case skip_json_ws cs of
           [] \<Rightarrow> Inl JSONDecodeError
         | d # rest \<Rightarrow>
             if d = CHR 0x7D then Inr (JObj [], rest)
             else if d = CHR 0x22 then parse_members n [] (d # rest)
             else Inl JSONDecodeError)
      else if c = CHR 0x5B then
        (case skip_json_ws cs of
           [] \<Rightarrow> Inl JSONDecodeError
         | d # rest \<Rightarrow>
             if d = CHR 0x5D then Inr (JList [], rest)
             else parse_elems n [] (d # rest))
      else if prefix ''null'' (c # cs) then Inr (JNull, drop 4 (c # cs))
      else if prefix ''true'' (c # cs) then Inr (JBool True, drop 4 (c # cs))
      else if prefix ''false'' (c # cs) then Inr (JBool False, drop 5 (c # cs))
      else
        (case match_number (c # cs) of
           Some r \<Rightarrow> Inr r
         | None \<Rightarrow>
             if prefix ''NaN'' (c # cs) then Inr (JFloat NaN, drop 3 (c # cs))
             else if prefix ''Infinity'' (c # cs) then Inr (JFloat PosInf, drop 8 (c # cs))
             else if prefix ''-Infinity'' (c # cs) then Inr (JFloat NegInf, drop 9 (c # cs))
             else Inl JSONDecodeError))"
| "parse_elems 0 acc s = Inl RecursionError"
| "parse_elems (Suc n) acc s =
     (case parse_value n s of
        Inl e \<Rightarrow> Inl e
      | Inr (v, rest) \<Rightarrow>
          (case skip_json_ws rest of
             [] \<Rightarrow> Inl JSONDecodeError
           | d # rest' \<Rightarrow>
               if d = CHR 0x5D then Inr (JList (acc @ [v]), rest')
               else if d = CHR 0x2C then parse_elems n (acc @ [v]) (skip_json_ws rest')
               else Inl JSONDecodeError))"
| "parse_members 0 acc s = Inl RecursionError"
| "parse_members (Suc n) acc [] = Inl JSONDecodeError"
| "parse_members (Suc n) acc (q # cs) =
     (if q \<noteq> CHR 0x22 then Inl JSONDecodeError
      else
        case scan_string [] cs of
          Inl e \<Rightarrow> Inl e
        | Inr (key, rest) \<Rightarrow>
            (case skip_json_ws rest of
               [] \<Rightarrow> Inl JSONDecodeError
             | colon # rest1 \<Rightarrow>
                 if colon \<noteq> CHR 0x3A then Inl JSONDecodeError
                 else
                   case parse_value n (skip_json_ws rest1) of
                     Inl e \<Rightarrow> Inl e
                   | Inr (v, rest2) \<Rightarrow>
                       (case skip_json_ws rest2 of
                          [] \<Rightarrow> Inl JSONDecodeError
                        | d # rest3 \<Rightarrow>
                            if d = CHR 0x7D then Inr (JObj (AList.update key v acc), rest3)
                            else if d = CHR 0x2C
                              then parse_members n (AList.update key v acc) (skip_json_ws rest3)
                            else Inl JSONDecodeError)))"

text \<open>
  \<^verbatim>\<open>json.loads\<close>: white space, one value, white space, the end of the text.
\<close>

definition json_loads :: "string \<Rightarrow> pyexn + json" where
  "json_loads s =
     (case parse_value (2 * length s + 2) (skip_json_ws s) of
        Inl e \<Rightarrow> Inl e
      | Inr (v, rest) \<Rightarrow> if skip_json_ws rest = [] then Inr v else Inl JSONDecodeError)"

section \<open>The model gateway\<close>

text \<open>
  \<^verbatim>\<open>OllamaClient.generate\<close> posts a payload and reads the answer.  What the HTTP
  library does is a parameter \<open>post\<close>: the call raises (with the text of the exception),
  or it returns a response, whose \<^verbatim>\<open>raise_for_status()\<close> raises or not and whose
  \<^verbatim>\<open>json()\<close> raises or yields a value.  The options of the payload are the constants
  \<^verbatim>\<open>0.7\<close> and \<^verbatim>\<open>0.9\<close>.
\<close>

record http_response =
  status_error :: "string option"
  json_result :: "string + json"

datatype post_result = PostRaised string | PostReturned http_response

record payload =
  p_model :: string
  p_prompt :: string
  p_system :: string
  p_stream :: bool
  p_temperature :: rat
  p_top_p :: rat

text \<open>The name Python prints for the type of a value.\<close>

fun type_name :: "json \<Rightarrow> string" where
  "type_name JNull = ''NoneType''"
| "type_name (JBool _) = ''bool''"
| "type_name (JInt _) = ''int''"
| "type_name (JFloat _) = ''float''"
| "type_name (JStr _) = ''str''"
| "type_name (JList _) = ''list''"
| "type_name (JObj _) = ''dict''"

definition quoted :: "string \<Rightarrow> string" where
  "quoted s = [CHR 0x27] @ s @ [CHR 0x27]"

text \<open>
  The body of the \<^verbatim>\<open>try\<close> block: \<open>Inl\<close> carries the text of the exception raised in
  it.  \<^verbatim>\<open>.get("response", "")\<close> needs the decoded body to be a dict.
\<close>

definition generate_try ::
  "(string \<Rightarrow> payload \<Rightarrow> post_result) \<Rightarrow> string \<Rightarrow> string \<Rightarrow> string \<Rightarrow> string \<Rightarrow> bool
     \<Rightarrow> string + json" where
  "generate_try post base_url prompt model system stream =
     (let payload = \<lparr> p_model = model, p_prompt = prompt, p_system = system, p_stream = stream,
                       p_temperature = 7 / 10, p_top_p = 9 / 10 \<rparr>
      in case post (base_url @ ''/api/generate'') payload of
           PostRaised e \<Rightarrow> Inl e
         | PostReturned response \<Rightarrow>
             (case status_error response of
                Some e \<Rightarrow> Inl e
              | None \<Rightarrow>
                  (case json_result response of
                     Inl e \<Rightarrow> Inl e
                   | Inr (JObj d) \<Rightarrow> Inr (dict_get d ''response'' (JStr []))
                   | Inr v \<Rightarrow>
                       Inl (quoted (type_name v) @ '' object has no attribute '' @ quoted ''get''))))"

text \<open>
  \<^verbatim>\<open>OllamaClient.generate\<close>: the \<^verbatim>\<open>try\<close> block under \<^verbatim>\<open>except Exception as e\<close>.
  \<open>Inl\<close> would be an exception that leaves the method.
\<close>

definition generate ::
  "(string \<Rightarrow> payload \<Rightarrow> post_result) \<Rightarrow> string \<Rightarrow> string \<Rightarrow> string \<Rightarrow> string \<Rightarrow> bool
     \<Rightarrow> string + json" where
  "generate post base_url prompt model system stream =
     (case generate_try post base_url prompt model system stream of
        Inl e \<Rightarrow> Inr (JStr (''Error: '' @ e))
      | Inr v \<Rightarrow> Inr v)"

section \<open>The planner\<close>

text \<open>Truth value of a Python value in a condition.\<close>

fun truthy :: "json \<Rightarrow> bool" where
  "truthy JNull = False"
| "truthy (JBool b) = b"
| "truthy (JInt n) = (n \<noteq> 0)"
| "truthy (JFloat (Finite q)) = (q \<noteq> 0)"
| "truthy (JFloat _) = True"
| "truthy (JStr s) = (s \<noteq> [])"
| "truthy (JList xs) = (xs \<noteq> [])"
| "truthy (JObj d) = (d \<noteq> [])"

text \<open>
  The characters of a text, each with the bytes that continue it (80 to BF).
\<close>

definition is_continuation :: "char \<Rightarrow> bool" where
  "is_continuation c = (0x80 \<le> (of_char c :: nat) \<and> (of_char c :: nat) < 0xC0)"

function utf8_chars :: "string \<Rightarrow> string list" where
  "utf8_chars [] = []"
| "utf8_chars (c # cs) = (c # takeWhile is_continuation cs) # utf8_chars (dropWhile is_continuation cs)"
  by pat_completeness auto
termination
  by (relation "measure length") (auto simp: le_imp_less_Suc length_dropWhile_le)

text \<open>
  What a \<^verbatim>\<open>for\<close> loop runs over: the elements of a list, the keys of a dict, the
  characters of a string, each a string of its own; nothing else is iterable.
\<close>

fun py_iter :: "json \<Rightarrow> pyexn + json list" where
  "py_iter (JList xs) = Inr xs"
| "py_iter (JObj d) = Inr (map (\<lambda>kv. JStr (fst kv)) d)"
| "py_iter (JStr s) = Inr (map JStr (utf8_chars s))"
| "py_iter _ = Inl TypeError"

text \<open>
  The format specification \<^verbatim>\<open>.0%\<close>: defined for numbers (an integer is converted to a
  double first, which overflows from \<open>2 ^ 1024 - 2 ^ 970\<close> on), a \<^verbatim>\<open>ValueError\<close> for a
  string, a \<^verbatim>\<open>TypeError\<close> for everything else.  \<open>None\<close> means the text is produced.
\<close>

fun format_percent :: "json \<Rightarrow> pyexn option" where
  "format_percent (JInt n) = (if \<bar>n\<bar> \<ge> 2 ^ 1024 - 2 ^ 970 then Some OverflowError else None)"
| "format_percent (JBool _) = None"
| "format_percent (JFloat _) = None"
| "format_percent (JStr _) = Some ValueError"
| "format_percent _ = Some TypeError"

text \<open>
  The loop that emits the reasoning steps; only whether it raises matters here, the
  emitted lines go to the display.
\<close>

fun emit_reasoning :: "json list \<Rightarrow> pyexn option" where
  "emit_reasoning [] = None"
| "emit_reasoning (step # rest) =
     (case step of
        JObj d \<Rightarrow>
          (case format_percent (dict_get d ''confidence'' (JInt 0)) of
             Some e \<Rightarrow> Some e
           | None \<Rightarrow> emit_reasoning rest)
      | _ \<Rightarrow> Some AttributeError)"

text \<open>Comparison of doubles, and \<^verbatim>\<open>x >= threshold\<close> for a value against a double.\<close>

fun float_ge :: "pyfloat \<Rightarrow> pyfloat \<Rightarrow> bool" where
  "float_ge NaN _ = False"
| "float_ge _ NaN = False"
| "float_ge PosInf _ = True"
| "float_ge _ NegInf = True"
| "float_ge NegInf _ = False"
| "float_ge _ PosInf = False"
| "float_ge (Finite a) (Finite b) = (a \<ge> b)"

fun py_ge :: "json \<Rightarrow> pyfloat \<Rightarrow> pyexn + bool" where
  "py_ge (JInt n) t = Inr (float_ge (Finite (of_int n)) t)"
| "py_ge (JBool b) t = Inr (float_ge (Finite (if b then 1 else 0)) t)"
| "py_ge (JFloat f) t = Inr (float_ge f t)"
| "py_ge _ t = Inl TypeError"

text \<open>
  One pass through the inner \<^verbatim>\<open>try\<close> block of \<^verbatim>\<open>ReasoningEngine.run\<close>, for the
  response the gateway returned: a plan was built, the confidence was too low, the
  response did not parse, or an exception was caught by \<^verbatim>\<open>except Exception\<close>.
\<close>

datatype iteration = Built ExecutionPlan | LowConfidence | Unparsed | Caught pyexn

definition reasoning_iteration ::
  "(string \<Rightarrow> pyexn + json) \<Rightarrow> pyfloat \<Rightarrow> json \<Rightarrow> iteration" where
  "reasoning_iteration loads confidence_threshold response =
     (case response of
        JStr text \<Rightarrow>
          (case extract_json loads text of
             Inl e \<Rightarrow> Caught e
           | Inr parsed \<Rightarrow>
               if truthy parsed then
                 (case py_get parsed ''reasoning'' (JList []) of
                    Inl e \<Rightarrow> Caught e
                  | Inr reasoning \<Rightarrow>
                 (case py_iter reasoning of
                    Inl e \<Rightarrow> Caught e
                  | Inr reasoning_steps \<Rightarrow>
                 (case emit_reasoning reasoning_steps of
                    Some e \<Rightarrow> Caught e
                  | None \<Rightarrow>
                 (case py_get parsed ''plan'' (JObj []) of
                    Inl e \<Rightarrow> Caught e
                  | Inr plan_data \<Rightarrow>
                 (case py_get plan_data ''overall_confidence'' (JInt 0) of
                    Inl e \<Rightarrow> Caught e
                  | Inr confidence \<Rightarrow>
                 (case py_ge confidence confidence_threshold of
                    Inl e \<Rightarrow> Caught e
                  | Inr True \<Rightarrow>
                      (case build_plan plan_data of
                         Inl e \<Rightarrow> Caught e
                       | Inr final_plan \<Rightarrow> Built final_plan)
                  | Inr False \<Rightarrow>
                      (case format_percent confidence of
                         Some e \<Rightarrow> Caught e
                       | None \<Rightarrow> LowConfidence)))))))
               else Unparsed)
      | _ \<Rightarrow> Caught TypeError)"

text \<open>
  A parsed response whose confidence meets the threshold: the test the loop makes
  before it builds a plan.
\<close>

definition meets_threshold ::
  "(string \<Rightarrow> pyexn + json) \<Rightarrow> pyfloat \<Rightarrow> json \<Rightarrow> bool" where
  "meets_threshold loads confidence_threshold response =
     (case response of
        JStr text \<Rightarrow>
          (case extract_json loads text of
             Inr parsed \<Rightarrow>
               truthy parsed \<and>
               (case py_get parsed ''plan'' (JObj []) of
                  Inr plan_data \<Rightarrow>
                    (case py_get plan_data ''overall_confidence'' (JInt 0) of
                       Inr confidence \<Rightarrow> py_ge confidence confidence_threshold = Inr True
                     | Inl e \<Rightarrow> False)
                | Inl e \<Rightarrow> False)
           | Inl e \<Rightarrow> False)
      | _ \<Rightarrow> False)"

text \<open>The plan emitted when the loop ends without a plan of the model's.\<close>

definition clarification_plan :: ExecutionPlan where
  "clarification_plan =
     \<lparr> summary = JStr ''I need more information to proceed safely.'',
       steps = JList [],
       overall_confidence = JFloat (Finite 0),
       operation_type = READ_ONLY,
       requires_confirmation = False \<rparr>"

text \<open>
  What a run of the thread leaves behind: the plans sent with \<^verbatim>\<open>plan_ready\<close>, in order,
  and the number of passes through the loop body, each of which calls the gateway once.
\<close>

record run_result =
  plans_emitted :: "ExecutionPlan list"
  iterations :: nat

text \<open>
  The loop of \<^verbatim>\<open>ReasoningEngine.run\<close> from \<^verbatim>\<open>loop_count\<close> on.  The gateway and the user
  are outside the program: \<open>responses k\<close> is what the call of pass \<open>k\<close> returns, and the
  flag \<^verbatim>\<open>_cancelled\<close>, set by another thread, is read twice per pass, by the loop test
  (\<open>cancelled_at_test k\<close>) and after the call (\<open>cancelled_after_call k\<close>).  The prompt, which
  grows by one instruction per failed pass, is text sent to the gateway and is not
  tracked.  The measure of the termination proof is the remaining budget.
\<close>

function run_loop ::
  "(string \<Rightarrow> pyexn + json) \<Rightarrow> pyfloat \<Rightarrow> int \<Rightarrow> (nat \<Rightarrow> bool) \<Rightarrow> (nat \<Rightarrow> bool) \<Rightarrow> (nat \<Rightarrow> json)
     \<Rightarrow> nat \<Rightarrow> run_result" where
  "run_loop loads confidence_threshold max_loops cancelled_at_test cancelled_after_call responses loop_count =
     (if int loop_count < max_loops \<and> \<not> cancelled_at_test loop_count then
        (if cancelled_after_call loop_count
         then \<lparr> plans_emitted = [], iterations = loop_count + 1 \<rparr>
         else
           case reasoning_iteration loads confidence_threshold (responses loop_count) of
             Built final_plan \<Rightarrow> \<lparr> plans_emitted = [final_plan], iterations = loop_count + 1 \<rparr>
           | _ \<Rightarrow> run_loop loads confidence_threshold max_loops cancelled_at_test
                    cancelled_after_call responses (loop_count + 1))
      else \<lparr> plans_emitted = [clarification_plan], iterations = loop_count \<rparr>)"
  by pat_completeness auto
termination
  by (relation "measure (\<lambda>(loads, t, max_loops, c1, c2, rs, loop_count). nat (max_loops - int loop_count))")
     auto

declare run_loop.simps [simp del]

text \<open>\<^verbatim>\<open>ReasoningEngine.run\<close>: the loop from \<^verbatim>\<open>loop_count = 0\<close>.\<close>

definition run ::
  "(string \<Rightarrow> pyexn + json) \<Rightarrow> pyfloat \<Rightarrow> int \<Rightarrow> (nat \<Rightarrow> bool) \<Rightarrow> (nat \<Rightarrow> bool) \<Rightarrow> (nat \<Rightarrow> json)
     \<Rightarrow> run_result" where
  "run loads confidence_threshold max_loops cancelled_at_test cancelled_after_call responses =
     run_loop loads confidence_threshold max_loops cancelled_at_test cancelled_after_call responses 0"

section \<open>The executor\<close>

text \<open>The three marks that open an outcome line, as UTF-8: check, cross, warning.\<close>

definition check_mark :: string where
  "check_mark = [CHR 0xE2, CHR 0x9C, CHR 0x85]"

definition cross_mark :: string where
  "cross_mark = [CHR 0xE2, CHR 0x9D, CHR 0x8C]"

definition warning_mark :: string where
  "warning_mark = [CHR 0xE2, CHR 0x9A, CHR 0xA0, CHR 0xEF, CHR 0xB8, CHR 0x8F]"

text \<open>
  \<^verbatim>\<open>str(v)\<close>, as an f-string inserts a value: a string stands for itself; for every
  other value it is the \<^verbatim>\<open>repr\<close>, a parameter.  \<^verbatim>\<open>type(v)\<close> prints as a class.
\<close>

definition py_str :: "(json \<Rightarrow> string) \<Rightarrow> json \<Rightarrow> string" where
  "py_str repr v = (case v of JStr s \<Rightarrow> s | _ \<Rightarrow> repr v)"

definition class_repr :: "json \<Rightarrow> string" where
  "class_repr v = ''<class '' @ quoted (type_name v) @ ''>''"

text \<open>The keys of \<^verbatim>\<open>action_map\<close>.\<close>

definition action_names :: "string list" where
  "action_names =
     [''OPEN_TERMINAL'', ''NAVIGATE'', ''OPEN_FILE'', ''MOVE_FILE'', ''COPY_FILE'',
      ''MODIFY_TEXT'', ''SEARCH_TEXT'', ''GENERATE_TEXT'', ''APPEND_TEXT'', ''REMOVE_TEXT'',
      ''SAVE_FILE'', ''CLOSE_FILE'', ''DELETE_FILE'', ''DELETE_TEXT'']"

text \<open>
  The handlers work on the file system, the editor and the window, which are outside
  the program.  They are a parameter: for an action name of the table, the parameters
  and the state of the world, a handler returns its result text or raises (\<open>Inl\<close>, with
  the text of the exception), and leaves a new state of the world.

  \<^verbatim>\<open>PlanExecutor._execute_action\<close>: looking the action up hashes it; a name outside the
  table gives a text, not an exception.
\<close>

definition execute_action ::
  "(string \<Rightarrow> (string \<times> json) list \<Rightarrow> 'w \<Rightarrow> (string + string) \<times> 'w) \<Rightarrow> (json \<Rightarrow> string)
     \<Rightarrow> json \<Rightarrow> (string \<times> json) list \<Rightarrow> 'w \<Rightarrow> (string + string) \<times> 'w" where
  "execute_action handlers repr action params w =
     (if \<not> hashable action
      then (Inl (''unhashable type: '' @ quoted (type_name action)), w)
      else
        case action of
          JStr a \<Rightarrow>
            if a \<in> set action_names then handlers a params w
            else (Inr (''Unknown action: '' @ a), w)
        | _ \<Rightarrow> (Inr (''Unknown action: '' @ py_str repr action), w))"

text \<open>
  The normalisation of the parameters in \<^verbatim>\<open>PlanExecutor.execute\<close>: the warnings
  appended to the results, and the dict passed on.
\<close>

definition normalize_params ::
  "(json \<Rightarrow> string) \<Rightarrow> json \<Rightarrow> json \<Rightarrow> string list \<times> (string \<times> json) list" where
  "normalize_params repr action params =
     (case params of
        JObj p \<Rightarrow> ([], p)
      | _ \<Rightarrow>
          (let is_str = (case params of JStr _ \<Rightarrow> True | _ \<Rightarrow> False) in
           if action = JStr ''NAVIGATE'' \<and> is_str then ([], [(''path'', params)])
           else if action = JStr ''OPEN_FILE'' \<and> is_str then ([], [(''path'', params)])
           else if action = JStr ''CLOSE_FILE'' \<and> is_str then ([], [(''path'', params)])
           else if action = JStr ''DELETE_FILE'' \<and> is_str then ([], [(''path'', params)])
           else if action = JStr ''SAVE_FILE'' \<and> is_str then ([], [(''path'', params)])
           else if action = JStr ''SEARCH_TEXT'' \<and> is_str then ([], [(''pattern'', params)])
           else if action = JStr ''OPEN_TERMINAL'' \<and> is_str then ([], [(''path'', params)])
           else ([warning_mark @ '' Params for '' @ py_str repr action
                    @ '' not a dict, got: '' @ class_repr params], [])))"

text \<open>
  The body of the loop of \<^verbatim>\<open>PlanExecutor.execute\<close> for one step: the lines it appends
  to the results, whether it leaves the loop (\<^verbatim>\<open>break\<close>), and the world after it.
\<close>

definition run_step ::
  "(string \<Rightarrow> (string \<times> json) list \<Rightarrow> 'w \<Rightarrow> (string + string) \<times> 'w) \<Rightarrow> (json \<Rightarrow> string)
     \<Rightarrow> json \<Rightarrow> 'w \<Rightarrow> string list \<times> bool \<times> 'w" where
  "run_step handlers repr step w =
     (case step of
        JStr s \<Rightarrow> ([warning_mark @ '' Skipping malformed step: '' @ s], False, w)
      | JObj d \<Rightarrow>
          (let action = dict_get d ''action'' (JStr []);
               params = dict_get d ''params'' (JObj []);
               desc = dict_get d ''description'' action;
               normalized = normalize_params repr action params
           in case execute_action handlers repr action (snd normalized) w of
                (Inr result, w') \<Rightarrow>
                  (fst normalized @ [check_mark @ '' '' @ py_str repr desc @ '': '' @ result],
                   False, w')
              | (Inl e, w') \<Rightarrow>
                  (fst normalized @ [cross_mark @ '' '' @ py_str repr desc @ '': Error - '' @ e],
                   True, w'))
      | _ \<Rightarrow> ([warning_mark @ '' Skipping invalid step type: '' @ class_repr step], False, w))"

fun execute_steps ::
  "(string \<Rightarrow> (string \<times> json) list \<Rightarrow> 'w \<Rightarrow> (string + string) \<times> 'w) \<Rightarrow> (json \<Rightarrow> string)
     \<Rightarrow> json list \<Rightarrow> string list \<Rightarrow> 'w \<Rightarrow> string list \<times> 'w" where
  "execute_steps handlers repr [] results w = (results, w)"
| "execute_steps handlers repr (step # rest) results w =
     (case run_step handlers repr step w of
        (out, stop, w') \<Rightarrow>
          if stop then (results @ out, w')
          else execute_steps handlers repr rest (results @ out) w')"

text \<open>
  \<^verbatim>\<open>PlanExecutor.execute\<close>: the results and the world after the batch; iterating over
  the steps raises when they are not iterable.
\<close>

definition execute ::
  "(string \<Rightarrow> (string \<times> json) list \<Rightarrow> 'w \<Rightarrow> (string + string) \<times> 'w) \<Rightarrow> (json \<Rightarrow> string)
     \<Rightarrow> ExecutionPlan \<Rightarrow> 'w \<Rightarrow> pyexn + (string list \<times> 'w)" where
  "execute handlers repr plan w =
     (case py_iter (steps plan) of
        Inl e \<Rightarrow> Inl e
      | Inr step_list \<Rightarrow> Inr (execute_steps handlers repr step_list [] w))"

text \<open>
  A step in the shape the planner asks the model for: a dict whose parameters, when
  given, are a dict.
\<close>

definition well_formed_step :: "json \<Rightarrow> bool" where
  "well_formed_step step =
     (case step of
        JObj d \<Rightarrow> (case dict_get d ''params'' (JObj []) of JObj _ \<Rightarrow> True | _ \<Rightarrow> False)
      | _ \<Rightarrow> False)"

text \<open>
  The index of the first step whose action raises, when the steps run in order from
  the world \<open>w\<close>.
\<close>

fun first_failure ::
  "(string \<Rightarrow> (string \<times> json) list \<Rightarrow> 'w \<Rightarrow> (string + string) \<times> 'w) \<Rightarrow> (json \<Rightarrow> string)
     \<Rightarrow> json list \<Rightarrow> 'w \<Rightarrow> nat option" where
  "first_failure handlers repr [] w = None"
| "first_failure handlers repr (step # rest) w =
     (case run_step handlers repr step w of
        (out, stop, w') \<Rightarrow>
          if stop then Some 0
          else map_option Suc (first_failure handlers repr rest w'))"

text \<open>
  Handlers for the examples: the world is the list of the calls made so far; appending
  to a file fails, every other action succeeds.
\<close>

definition recording_handlers ::
  "string \<Rightarrow> (string \<times> json) list \<Rightarrow> (string \<times> (string \<times> json) list) list
     \<Rightarrow> (string + string) \<times> (string \<times> (string \<times> json) list) list" where
  "recording_handlers a params calls =
     (if a = ''APPEND_TEXT'' then (Inl ''[Errno 13] Permission denied'', calls @ [(a, params)])
      else (Inr ''done'', calls @ [(a, params)]))"

section \<open>Task context and error triage\<close>

text \<open>
  One tracked subtask, as \<^verbatim>\<open>_extract_subtasks\<close> builds it; the status is later overwritten
  with whatever value the model reports.
\<close>

record subtask =
  st_id :: int
  st_description :: json
  st_status :: json

text \<open>
  The dictionary \<^verbatim>\<open>self.task_context\<close>.  The key \<^verbatim>\<open>subtasks\<close> is absent from the
  dictionaries that \<^verbatim>\<open>__init__\<close> and \<^verbatim>\<open>_reset_task_context\<close> build, hence the option.
\<close>

record TaskContext =
  original_goal :: json
  progress :: "string list"
  attempts :: int
  subtasks :: "subtask list option"
  errors :: "string list"
  last_error :: "string option"
  consecutive_errors :: int
  alternative_attempts :: int
  searched_directories :: "string list"
  last_action :: "string option"
  action_repeat_count :: int

text \<open>\<^verbatim>\<open>NavigatorBuddy._handle_execution_error\<close>; the goal and the plan are not read.\<close>

definition handle_execution_error :: "TaskContext \<Rightarrow> string" where
  "handle_execution_error tc =
     (let consecutive = consecutive_errors tc;
          alt_attempts = alternative_attempts tc
      in if consecutive \<ge> 3 then
           (if alt_attempts \<ge> 5 then ''impossible'' else ''alternative'')
         else if consecutive < 3 then ''retry''
         else ''stop'')"


text \<open>\<^verbatim>\<open>NavigatorBuddy._reset_task_context\<close>.\<close>

definition reset_task_context :: TaskContext where
  "reset_task_context =
     \<lparr> original_goal = JStr [], progress = [], attempts = 0, subtasks = None, errors = [],
       last_error = None, consecutive_errors = 0, alternative_attempts = 0,
       searched_directories = [], last_action = None, action_repeat_count = 0 \<rparr>"

text \<open>\<^verbatim>\<open>NavigatorBuddy._track_error\<close>.\<close>

definition track_error :: "string \<Rightarrow> TaskContext \<Rightarrow> TaskContext" where
  "track_error error_msg tc =
     (let core_error = (if CHR 0x3A \<in> set error_msg
                        then strip (last (split_on (CHR 0x3A) error_msg))
                        else error_msg);
          tc1 = tc\<lparr> errors := errors tc @ [error_msg] \<rparr>
      in if last_error tc1 = Some core_error
         then tc1\<lparr> consecutive_errors := consecutive_errors tc1 + 1 \<rparr>
         else tc1\<lparr> consecutive_errors := 1, last_error := Some core_error \<rparr>)"

text \<open>
  The first statement of \<^verbatim>\<open>_generate_alternative_plan\<close>, the only place where the
  count of alternatives grows.
\<close>

definition count_alternative :: "TaskContext \<Rightarrow> TaskContext" where
  "count_alternative tc = tc\<lparr> alternative_attempts := alternative_attempts tc + 1 \<rparr>"

section \<open>The verification turn\<close>

text \<open>
  The block of \<^verbatim>\<open>execute_agentic\<close> that detects a navigation loop, and the text of its
  warning.
\<close>

definition loop_warning_text :: string where
  "loop_warning_text =
       [CHR 0x0A, CHR 0x0A, CHR 0xF0, CHR 0x9F, CHR 0x9A, CHR 0xA8]
     @ '' NAVIGATION LOOP DETECTED! You have searched the same directory multip''
     @ ''le times. You MUST try a DIFFERENT approach:''
     @ [CHR 0x0A]
     @ ''- Use SEARCH_TEXT to find the file across the system''
     @ [CHR 0x0A]
     @ ''- Try parent directories or common locations''
     @ [CHR 0x0A]
     @ ''- Check if the file actually exists''
     @ [CHR 0x0A]
     @ ''- Consider that the file might have a different name''
     @ [CHR 0x0A]"

definition loop_warning :: "string list \<Rightarrow> string" where
  "loop_warning searched_dirs =
     (if length searched_dirs > 3 then
        (let recent_dirs = drop (length searched_dirs - 3) searched_dirs
         in if length (remdups recent_dirs) < length recent_dirs then loop_warning_text else [])
      else [])"

definition searched_dirs_str :: "string list \<Rightarrow> string" where
  "searched_dirs_str searched_dirs =
     (if searched_dirs \<noteq> []
      then join_with [CHR 0x0A]
             (map (\<lambda>d. ''  - '' @ d) (drop (length searched_dirs - 10) searched_dirs))
      else ''  (None yet)'')"

text \<open>The fixed end of the verification prompt.\<close>

definition prompt_rules :: string where
  "prompt_rules =
       [CHR 0x0A, CHR 0x0A]
     @ ''CRITICAL RULES:''
     @ [CHR 0x0A]
     @ ''1. Check EACH subtask individually - goal is only complete when ALL su''
     @ ''btasks are done''
     @ [CHR 0x0A]
     @ ''2. DO NOT navigate to directories already searched''
     @ [CHR 0x0A]
     @ ''3. If looking for a file, try DIFFERENT locations or use SEARCH_TEXT''
     @ [CHR 0x0A]
     @ ''4. If file not found after 2-3 directory checks, use SEARCH_TEXT actio''
     @ ''n instead''
     @ [CHR 0x0A, CHR 0x0A]
     @ ''Respond with JSON:''
     @ [CHR 0x0A]
     @ ''{''
     @ [CHR 0x0A]
     @ ''    ''
     @ [CHR 0x22]
     @ ''complete''
     @ [CHR 0x22]
     @ '': true/false,''
     @ [CHR 0x0A]
     @ ''    ''
     @ [CHR 0x22]
     @ ''subtasks_status''
     @ [CHR 0x22]
     @ '': {''
     @ [CHR 0x0A]
     @ ''        ''
     @ [CHR 0x22]
     @ ''subtask_1''
     @ [CHR 0x22]
     @ '': ''
     @ [CHR 0x22]
     @ ''complete/incomplete/not_started''
     @ [CHR 0x22]
     @ '',''
     @ [CHR 0x0A]
     @ ''        ''
     @ [CHR 0x22]
     @ ''subtask_2''
     @ [CHR 0x22]
     @ '': ''
     @ [CHR 0x22]
     @ ''complete/incomplete/not_started''
     @ [CHR 0x22]
     @ '',''
     @ [CHR 0x0A]
     @ ''        ...''
     @ [CHR 0x0A]
     @ ''    },''
     @ [CHR 0x0A]
     @ ''    ''
     @ [CHR 0x22]
     @ ''reasoning''
     @ [CHR 0x22]
     @ '': ''
     @ [CHR 0x22]
     @ ''detailed explanation of what''
     @ [CHR 0x27]
     @ ''s been done and what remains''
     @ [CHR 0x22]
     @ '',''
     @ [CHR 0x0A]
     @ ''    ''
     @ [CHR 0x22]
     @ ''next_action''
     @ [CHR 0x22]
     @ '': {''
     @ [CHR 0x0A]
     @ ''        ''
     @ [CHR 0x22]
     @ ''action''
     @ [CHR 0x22]
     @ '': ''
     @ [CHR 0x22]
     @ ''ACTION_NAME''
     @ [CHR 0x22]
     @ '',''
     @ [CHR 0x0A]
     @ ''        ''
     @ [CHR 0x22]
     @ ''params''
     @ [CHR 0x22]
     @ '': {...},''
     @ [CHR 0x0A]
     @ ''        ''
     @ [CHR 0x22]
     @ ''description''
     @ [CHR 0x22]
     @ '': ''
     @ [CHR 0x22]
     @ ''what to do next''
     @ [CHR 0x22, CHR 0x0A]
     @ ''    }''
     @ [CHR 0x0A]
     @ ''}''
     @ [CHR 0x0A, CHR 0x0A]
     @ ''Only set complete=true if ALL subtasks are verified complete. If ANY s''
     @ ''ubtask remains, provide the next_action.''
     @ [CHR 0x0A]"

text \<open>
  The verification prompt: its head up to the list of searched directories, then that
  list, the warning and the rules.  The goal, the list of open files and the two counters are
  inserted as Python prints them, so they are given as text; the lines of the subtasks
  and of the progress log are given joined, as the code joins them before.
\<close>

definition prompt_head ::
  "string \<Rightarrow> string \<Rightarrow> string \<Rightarrow> string \<Rightarrow> string \<Rightarrow> string \<Rightarrow> string \<Rightarrow> string" where
  "prompt_head goal_text subtasks_status progress_log current_directory open_files_text
       turn_text max_turns_text =
       ([CHR 0x0A]
          @ ''Original goal: '') @ goal_text
     @ ([CHR 0x0A, CHR 0x0A]
          @ ''Subtasks to complete:''
          @ [CHR 0x0A])
     @ (if subtasks_status \<noteq> [] then subtasks_status else ''  (No subtasks defined)'')
     @ ([CHR 0x0A, CHR 0x0A]
          @ ''Progress so far:''
          @ [CHR 0x0A])
     @ (if progress_log \<noteq> [] then progress_log else ''  (No actions yet)'')
     @ ([CHR 0x0A, CHR 0x0A]
          @ ''Current state:''
          @ [CHR 0x0A]
          @ ''- Directory: '') @ current_directory
     @ ([CHR 0x0A]
          @ ''- Open files: '') @ open_files_text
     @ ([CHR 0x0A]
          @ ''- Turn: '') @ turn_text @ ''/'' @ max_turns_text
     @ ([CHR 0x0A, CHR 0x0A]
          @ ''Already searched directories (DO NOT search these again):''
          @ [CHR 0x0A])"

definition verification_prompt ::
  "string \<Rightarrow> string \<Rightarrow> string \<Rightarrow> string \<Rightarrow> string \<Rightarrow> string \<Rightarrow> string \<Rightarrow> string list \<Rightarrow> string" where
  "verification_prompt goal_text subtasks_status progress_log current_directory open_files_text
       turn_text max_turns_text searched_dirs =
       prompt_head goal_text subtasks_status progress_log current_directory open_files_text
         turn_text max_turns_text
     @ searched_dirs_str searched_dirs @ loop_warning searched_dirs
     @ prompt_rules"








section \<open>Inputs of the examples\<close>

text \<open>
  A response whose plan states a confidence of one half, the double nearest to the
  default threshold \<^verbatim>\<open>0.95\<close>, a batch of three steps, and a context with two tracked
  subtasks next to a verification response that claims completion.
\<close>

definition low_confidence_response :: string where
  "low_confidence_response =
     ''{''
     @ [CHR 0x22]
     @ ''plan''
     @ [CHR 0x22]
     @ '': {''
     @ [CHR 0x22]
     @ ''summary''
     @ [CHR 0x22]
     @ '': ''
     @ [CHR 0x22]
     @ ''List the files''
     @ [CHR 0x22]
     @ '', ''
     @ [CHR 0x22]
     @ ''steps''
     @ [CHR 0x22]
     @ '': [], ''
     @ [CHR 0x22]
     @ ''overall_confidence''
     @ [CHR 0x22]
     @ '': 0.5, ''
     @ [CHR 0x22]
     @ ''operation_type''
     @ [CHR 0x22]
     @ '': ''
     @ [CHR 0x22]
     @ ''READ_ONLY''
     @ [CHR 0x22]
     @ ''}}''"

definition default_threshold :: pyfloat where
  "default_threshold = float_of_rat (95 / 100)"

definition go_to_tmp :: json where
  "go_to_tmp =
     JObj [(''action'', JStr ''NAVIGATE''), (''params'', JObj [(''path'', JStr ''/tmp'')]),
           (''description'', JStr ''Go to tmp'')]"

definition append_note :: json where
  "append_note =
     JObj [(''action'', JStr ''APPEND_TEXT''),
           (''params'', JObj [(''text'', JStr ''x''), (''path'', JStr ''/etc/hosts'')]),
           (''description'', JStr ''Append note'')]"

definition remove_old_log :: json where
  "remove_old_log =
     JObj [(''action'', JStr ''DELETE_FILE''), (''params'', JObj [(''path'', JStr ''/tmp/old.log'')]),
           (''description'', JStr ''Remove old log'')]"




section \<open>Properties\<close>

text \<open>
  C1.  Whenever \<^verbatim>\<open>_build_plan\<close> returns a plan, the plan requires confirmation exactly
  when its operation type is MODIFY, DESTRUCTIVE or SYSTEM, and does not require it
  exactly when the type is READ_ONLY; an operation type string that is none of the four
  names gives READ_ONLY and no confirmation.
\<close>

theorem build_plan_requires_confirmation:
  assumes "build_plan plan_data = Inr p"
  shows "(requires_confirmation p \<longleftrightarrow> operation_type p \<in> {MODIFY, DESTRUCTIVE, SYSTEM})
       \<and> (\<not> requires_confirmation p \<longleftrightarrow> operation_type p = READ_ONLY)
       \<and> (\<forall>d s. plan_data = JObj d \<and> map_of d ''operation_type'' = Some (JStr s)
              \<and> s \<notin> {''READ_ONLY'', ''MODIFY'', ''DESTRUCTIVE'', ''SYSTEM''}
            \<longrightarrow> operation_type p = READ_ONLY \<and> \<not> requires_confirmation p)"
proof -
  from assms obtain d where d: "plan_data = JObj d"
    by (cases plan_data) (simp_all add: build_plan_def)
  let ?s = "dict_get d ''operation_type'' (JStr ''READ_ONLY'')"
  from assms d have h: "hashable ?s"
    by (auto simp: build_plan_def Let_def split: if_splits)
  let ?t = "(case ?s of JStr s \<Rightarrow> (case op_type_map s of Some t \<Rightarrow> t | None \<Rightarrow> READ_ONLY)
             | _ \<Rightarrow> READ_ONLY)"
  from assms d h have ot: "operation_type p = ?t"
    and rc: "requires_confirmation p = (?t \<in> set [DESTRUCTIVE, SYSTEM, MODIFY])"
    by (auto simp: build_plan_def Let_def)
  have a: "requires_confirmation p \<longleftrightarrow> operation_type p \<in> {MODIFY, DESTRUCTIVE, SYSTEM}"
    unfolding ot rc by auto
  have b: "\<not> requires_confirmation p \<longleftrightarrow> operation_type p = READ_ONLY"
    unfolding a by (cases "operation_type p") simp_all
  have c: "operation_type p = READ_ONLY"
    if "plan_data = JObj d'" "map_of d' ''operation_type'' = Some (JStr s)"
       "s \<notin> {''READ_ONLY'', ''MODIFY'', ''DESTRUCTIVE'', ''SYSTEM''}" for d' s
  proof -
    from that d have "?s = JStr s" by (simp add: dict_get_def)
    moreover from that(3) have "op_type_map s = None" by (simp add: op_type_map_def)
    ultimately show ?thesis unfolding ot by simp
  qed
  from a b c show ?thesis by blast
qed

theorem build_plan_requires_confirmation_witness:
  "build_plan (JObj [(''summary'', JStr ''remove the log''), (''operation_type'', JStr ''DESTRUCTIVE'')])
     = Inr \<lparr> summary = JStr ''remove the log'', steps = JList [],
             overall_confidence = JFloat (Finite 0),
             operation_type = DESTRUCTIVE, requires_confirmation = True \<rparr>
   \<and> build_plan (JObj [(''operation_type'', JStr ''read-only'')])
     = Inr \<lparr> summary = JStr ''No summary provided'', steps = JList [],
             overall_confidence = JFloat (Finite 0),
             operation_type = READ_ONLY, requires_confirmation = False \<rparr>
   \<and> (requires_confirmation \<lparr> summary = JStr ''remove the log'', steps = JList [],
             overall_confidence = JFloat (Finite 0),
             operation_type = DESTRUCTIVE, requires_confirmation = True \<rparr>
        \<longleftrightarrow> DESTRUCTIVE \<in> {MODIFY, DESTRUCTIVE, SYSTEM})"
proof -
  have e1: "build_plan (JObj [(''summary'', JStr ''remove the log''), (''operation_type'', JStr ''DESTRUCTIVE'')])
     = Inr \<lparr> summary = JStr ''remove the log'', steps = JList [],
             overall_confidence = JFloat (Finite 0),
             operation_type = DESTRUCTIVE, requires_confirmation = True \<rparr>"
    by (simp add: build_plan_def dict_get_def op_type_map_def)
  have e2: "build_plan (JObj [(''operation_type'', JStr ''read-only'')])
     = Inr \<lparr> summary = JStr ''No summary provided'', steps = JList [],
             overall_confidence = JFloat (Finite 0),
             operation_type = READ_ONLY, requires_confirmation = False \<rparr>"
    by (simp add: build_plan_def dict_get_def op_type_map_def)
  from build_plan_requires_confirmation [OF e1] e1 e2 show ?thesis by simp
qed

text \<open>
  C3.  Error triage answers \<^verbatim>\<open>retry\<close> while fewer than three consecutive errors are
  recorded, \<^verbatim>\<open>alternative\<close> from three consecutive errors on while fewer than five
  alternatives were tried, and \<^verbatim>\<open>impossible\<close> from three consecutive errors on once five
  alternatives were tried.  So a state with four consecutive errors and fewer than five
  alternatives gets \<^verbatim>\<open>alternative\<close>, and one with five alternatives gets \<^verbatim>\<open>impossible\<close>.
\<close>

theorem handle_execution_error_policy:
  "(consecutive_errors tc < 3 \<longrightarrow> handle_execution_error tc = ''retry'')
 \<and> (consecutive_errors tc \<ge> 3 \<and> alternative_attempts tc < 5
      \<longrightarrow> handle_execution_error tc = ''alternative'')
 \<and> (consecutive_errors tc \<ge> 3 \<and> alternative_attempts tc \<ge> 5
      \<longrightarrow> handle_execution_error tc = ''impossible'')
 \<and> (consecutive_errors tc = 4 \<and> alternative_attempts tc < 5
      \<longrightarrow> handle_execution_error tc \<noteq> ''retry'')"
  by (simp add: handle_execution_error_def Let_def)

theorem handle_execution_error_policy_witness:
  "handle_execution_error
     ((track_error (cross_mark @ '' Append note: Error - [Errno 13] Permission denied'') ^^ 4)
        reset_task_context) = ''alternative''
   \<and> handle_execution_error
     ((count_alternative ^^ 5)
        ((track_error (cross_mark @ '' Append note: Error - [Errno 13] Permission denied'') ^^ 3)
           reset_task_context)) = ''impossible''
   \<and> handle_execution_error
     (track_error (cross_mark @ '' Append note: Error - [Errno 13] Permission denied'')
        reset_task_context) = ''retry''"
proof -
  let ?m = "cross_mark @ '' Append note: Error - [Errno 13] Permission denied''"
  have a: "consecutive_errors ((track_error ?m ^^ 4) reset_task_context) = 4
        \<and> alternative_attempts ((track_error ?m ^^ 4) reset_task_context) = 0"
    by (simp add: track_error_def reset_task_context_def cross_mark_def strip_def rstrip_def
          lstrip_def space1_def space2_def space3_def Let_def numeral_eq_Suc)
  have b: "consecutive_errors ((count_alternative ^^ 5) ((track_error ?m ^^ 3) reset_task_context)) = 3
        \<and> alternative_attempts ((count_alternative ^^ 5) ((track_error ?m ^^ 3) reset_task_context)) = 5"
    by (simp add: track_error_def reset_task_context_def cross_mark_def strip_def rstrip_def
          lstrip_def space1_def space2_def space3_def Let_def numeral_eq_Suc
          count_alternative_def)
  have c: "consecutive_errors (track_error ?m reset_task_context) = 1"
    by (simp add: track_error_def reset_task_context_def Let_def)
  from a b c
    handle_execution_error_policy [of "(track_error ?m ^^ 4) reset_task_context"]
    handle_execution_error_policy [of "(count_alternative ^^ 5) ((track_error ?m ^^ 3) reset_task_context)"]
    handle_execution_error_policy [of "track_error ?m reset_task_context"]
  show ?thesis by simp
qed

subsection \<open>The planner's loop\<close>

lemma run_loop_iterations:
  "int (iterations (run_loop loads t max_loops c1 c2 rs k)) \<le> max (int k) max_loops"
proof (induction loads t max_loops c1 c2 rs k rule: run_loop.induct)
  case (1 loads t max_loops c1 c2 rs k)
  show ?case
  proof (cases "int k < max_loops \<and> \<not> c1 k")
    case False
    then have "run_loop loads t max_loops c1 c2 rs k
                 = \<lparr> plans_emitted = [clarification_plan], iterations = k \<rparr>"
      by (subst run_loop.simps) auto
    then show ?thesis by simp
  next
    case True
    note go = this
    show ?thesis
    proof (cases "c2 k")
      case True
      with go show ?thesis by (subst run_loop.simps) simp
    next
      case False
      show ?thesis
      proof (cases "reasoning_iteration loads t (rs k)")
        case (Built p)
        with go False show ?thesis by (subst run_loop.simps) simp
      next
        case LowConfidence
        with go False "1.IH"(1)[OF go False LowConfidence] show ?thesis
          by (subst run_loop.simps) simp
      next
        case Unparsed
        with go False "1.IH"(2)[OF go False Unparsed] show ?thesis
          by (subst run_loop.simps) simp
      next
        case (Caught e)
        with go False "1.IH"(3)[OF go False Caught] show ?thesis
          by (subst run_loop.simps) simp
      qed
    qed
  qed
qed

lemma built_meets_threshold:
  "reasoning_iteration loads t r = Built p \<Longrightarrow> meets_threshold loads t r"
  by (auto simp: reasoning_iteration_def meets_threshold_def
      split: json.splits sum.splits if_splits option.splits bool.splits)

lemma run_loop_exhausted:
  assumes "\<forall>j. int j < max_loops \<longrightarrow> \<not> c2 j"
      and "\<forall>j. int j < max_loops \<longrightarrow> \<not> meets_threshold loads t (rs j)"
  shows "plans_emitted (run_loop loads t max_loops c1 c2 rs k) = [clarification_plan]"
  using assms
proof (induction loads t max_loops c1 c2 rs k rule: run_loop.induct)
  case (1 loads t max_loops c1 c2 rs k)
  show ?case
  proof (cases "int k < max_loops \<and> \<not> c1 k")
    case False
    then have "run_loop loads t max_loops c1 c2 rs k
                 = \<lparr> plans_emitted = [clarification_plan], iterations = k \<rparr>"
      by (subst run_loop.simps) auto
    then show ?thesis by simp
  next
    case True
    note go = this
    from go "1.prems" have nc: "\<not> c2 k" by blast
    from go "1.prems" have nm: "\<not> meets_threshold loads t (rs k)" by blast
    show ?thesis
    proof (cases "reasoning_iteration loads t (rs k)")
      case (Built p)
      with nm built_meets_threshold show ?thesis by blast
    next
      case LowConfidence
      with go nc "1.IH"(1)[OF go nc LowConfidence "1.prems"] show ?thesis
        by (subst run_loop.simps) simp
    next
      case Unparsed
      with go nc "1.IH"(2)[OF go nc Unparsed "1.prems"] show ?thesis
        by (subst run_loop.simps) simp
    next
      case (Caught e)
      with go nc "1.IH"(3)[OF go nc Caught "1.prems"] show ?thesis
        by (subst run_loop.simps) simp
    qed
  qed
qed

text \<open>
  C5.  For every loop budget, every behaviour of the gateway and of the decoder, and
  every course of the cancellation flag, the planner's loop makes at most \<^verbatim>\<open>max_loops\<close>
  passes (none when the budget is not positive).  That it ends at all is the termination
  proof of \<open>run_loop\<close>, whose measure is the budget that remains.
\<close>

theorem run_iterations_bounded:
  "int (iterations (run loads t max_loops c1 c2 rs)) \<le> max 0 max_loops"
  using run_loop_iterations [of loads t max_loops c1 c2 rs 0] by (simp add: run_def)

theorem run_iterations_bounded_witness:
  "iterations (run json_loads default_threshold 3 (\<lambda>k. False) (\<lambda>k. False)
                 (\<lambda>k. JStr ''Error: Connection refused'')) = 3"
proof -
  have "iterations (run json_loads default_threshold 3 (\<lambda>k. False) (\<lambda>k. False)
                 (\<lambda>k. JStr ''Error: Connection refused'')) = 3"
    by code_simp
  with run_iterations_bounded [of json_loads default_threshold 3 "\<lambda>k. False" "\<lambda>k. False"
         "\<lambda>k. JStr ''Error: Connection refused''"]
  show ?thesis by simp
qed

text \<open>
  C6.  When no response within the budget parses to a value whose confidence meets the
  threshold, and the flag is not found set after a call, the run sends exactly one plan,
  the clarification plan: no steps, confidence zero, no confirmation required.
\<close>

theorem run_exhausted_emits_clarification:
  assumes "\<forall>j. int j < max_loops \<longrightarrow> \<not> c2 j"
      and "\<forall>j. int j < max_loops \<longrightarrow> \<not> meets_threshold loads t (rs j)"
  shows "plans_emitted (run loads t max_loops c1 c2 rs) = [clarification_plan]
       \<and> steps clarification_plan = JList []
       \<and> overall_confidence clarification_plan = JFloat (Finite 0)
       \<and> \<not> requires_confirmation clarification_plan"
  using run_loop_exhausted [OF assms, of c1 0] by (simp add: run_def clarification_plan_def)

theorem run_exhausted_emits_clarification_witness:
  "plans_emitted (run json_loads default_threshold 3 (\<lambda>k. False) (\<lambda>k. False)
       (\<lambda>k. if k = 0 then JStr ''Error: Connection refused'' else JStr low_confidence_response))
     = [clarification_plan]"
proof -
  have a: "\<not> meets_threshold json_loads default_threshold (JStr ''Error: Connection refused'')"
    by code_simp
  have b: "\<not> meets_threshold json_loads default_threshold (JStr low_confidence_response)"
    by code_simp
  have h1: "\<forall>j. int j < 3 \<longrightarrow> \<not> (\<lambda>k. False) j" by simp
  have h2: "\<forall>j. int j < 3 \<longrightarrow> \<not> meets_threshold json_loads default_threshold
              ((\<lambda>k. if k = 0 then JStr ''Error: Connection refused''
                     else JStr low_confidence_response) j)"
    using a b by simp
  from run_exhausted_emits_clarification [OF h1 h2, of "\<lambda>k. False"]
  show ?thesis by simp
qed

subsection \<open>The response parser\<close>

lemma lstrip_with_set: "set (lstrip_with p1 p2 p3 s) \<subseteq> set s"
  by (induction p1 p2 p3 s rule: lstrip_with.induct) auto

lemma drop_prefix_set: "drop_prefix p s = Some r \<Longrightarrow> set r \<subseteq> set s"
  by (induction p s rule: drop_prefix.induct) (auto split: if_splits)

lemma match_fenced_at_no_brace:
  "CHR 0x7B \<notin> set s \<Longrightarrow> match_fenced_at opener ws closer s = None"
proof -
  assume nb: "CHR 0x7B \<notin> set s"
  show ?thesis
  proof (cases "drop_prefix opener s")
    case None
    then show ?thesis by (simp add: match_fenced_at_def)
  next
    case (Some r)
    then have "set r \<subseteq> set s" by (rule drop_prefix_set)
    moreover have "set (skip_ws ws r) \<subseteq> set r"
      using lstrip_with_set [of space1 space2 space3 r] by (simp add: skip_ws_def lstrip_def)
    ultimately have "CHR 0x7B \<notin> set (skip_ws ws r)" using nb by blast
    then show ?thesis using Some
      by (cases "skip_ws ws r") (auto simp: match_fenced_at_def)
  qed
qed

lemma search_fenced_no_brace:
  "CHR 0x7B \<notin> set s \<Longrightarrow> search_fenced opener ws closer s = None"
  by (induction s) (simp_all add: match_fenced_at_no_brace)

lemma try_patterns_no_brace:
  "CHR 0x7B \<notin> set s \<Longrightarrow> try_patterns loads ps s = None"
  by (induction ps) (auto simp: search_fenced_no_brace)

lemma split_on_set: "l \<in> set (split_on c s) \<Longrightarrow> set l \<subseteq> set s"
proof (induction s arbitrary: l)
  case Nil
  then show ?case by simp
next
  case (Cons a s)
  show ?case
  proof (cases "a = c")
    case True
    with Cons show ?thesis by auto
  next
    case False
    obtain p ps where sp: "split_on c s = p # ps"
      by (cases "split_on c s") (induction s, auto split: if_splits list.splits)
    with False Cons.prems have "l = a # p \<or> l \<in> set ps" by auto
    then show ?thesis
    proof
      assume "l = a # p"
      moreover have "set p \<subseteq> set s" using Cons.IH [of p] sp by simp
      ultimately show ?thesis by auto
    next
      assume "l \<in> set ps"
      then have "set l \<subseteq> set s" using Cons.IH [of l] sp by simp
      then show ?thesis by auto
    qed
  qed
qed

lemma line_fallback_no_brace:
  "\<forall>l \<in> set ls. CHR 0x7B \<notin> set l \<Longrightarrow> line_fallback loads ls acc False = None"
  by (induction ls arbitrary: acc) (simp_all add: Let_def)

text \<open>
  What the parser returns for a text without a left brace: strategies 1, 2, 3 and 5 find
  nothing, so the result is whatever \<^verbatim>\<open>json.loads\<close> makes of the stripped text, and
  \<^verbatim>\<open>None\<close> only when that raises.
\<close>

lemma extract_json_without_brace:
  assumes "CHR 0x7B \<notin> set response"
  shows "extract_json loads response
           = (case loads (strip response) of Inr v \<Rightarrow> Inr v | Inl e \<Rightarrow> Inr JNull)"
proof -
  have a: "try_patterns loads code_block_patterns response = None"
    using assms by (rule try_patterns_no_brace)
  have b: "balanced_object loads response = Inr None"
    using assms by (simp add: balanced_object_def find_char_def)
  have "\<forall>l \<in> set (split_on (CHR 0x0A) response). CHR 0x7B \<notin> set l"
    using assms split_on_set by blast
  then have c: "line_fallback loads (split_on (CHR 0x0A) response) [] False = None"
    by (rule line_fallback_no_brace)
  show ?thesis by (simp add: extract_json_def a b c split: sum.splits)
qed

text \<open>
  C7.  The claim is that a text without a left brace is reported as unparseable.  The
  text \<^verbatim>\<open>[1, 2]\<close> has no left brace, and the parser returns the list: strategy 4 hands
  back what \<^verbatim>\<open>json.loads\<close> returns without looking at its type, although the function
  is declared to return a dict or \<^verbatim>\<open>None\<close>.
\<close>

theorem extract_json_returns_list_without_brace:
  "extract_json json_loads ''[1, 2]'' = Inr (JList [JInt 1, JInt 2])"
  by code_simp

subsection \<open>The model gateway\<close>

text \<open>
  C10.  \<^verbatim>\<open>OllamaClient.generate\<close> always returns: no exception leaves it, whatever the
  HTTP library does.  When the body of its \<^verbatim>\<open>try\<close> block raises, in particular when the
  request itself raises or the status check does, the value returned is the string
  \<^verbatim>\<open>Error: \<close> followed by the text of the exception, an ordinary response text.
\<close>

theorem generate_never_raises:
  "(\<exists>v. generate post base_url prompt model system stream = Inr v)
   \<and> (\<forall>e. generate_try post base_url prompt model system stream = Inl e
          \<longrightarrow> generate post base_url prompt model system stream = Inr (JStr (''Error: '' @ e)))
   \<and> (\<forall>e. post (base_url @ ''/api/generate'')
             \<lparr> p_model = model, p_prompt = prompt, p_system = system, p_stream = stream,
               p_temperature = 7 / 10, p_top_p = 9 / 10 \<rparr> = PostRaised e
          \<longrightarrow> generate post base_url prompt model system stream = Inr (JStr (''Error: '' @ e)))
   \<and> (\<forall>r e. post (base_url @ ''/api/generate'')
             \<lparr> p_model = model, p_prompt = prompt, p_system = system, p_stream = stream,
               p_temperature = 7 / 10, p_top_p = 9 / 10 \<rparr> = PostReturned r
            \<and> status_error r = Some e
          \<longrightarrow> generate post base_url prompt model system stream = Inr (JStr (''Error: '' @ e)))"
  by (auto simp: generate_def generate_try_def Let_def split: sum.splits)

theorem generate_never_raises_witness:
  "generate (\<lambda>url body. PostRaised ''Connection refused'') ''http://localhost:11434''
      ''list the files'' ''llama3'' [] False = Inr (JStr ''Error: Connection refused'')
   \<and> generate (\<lambda>url body. PostReturned \<lparr> status_error = Some ''404 Client Error'',
                                          json_result = Inr JNull \<rparr>)
      ''http://localhost:11434'' ''list the files'' ''llama3'' [] False
       = Inr (JStr ''Error: 404 Client Error'')"
  using generate_never_raises [of "\<lambda>url body. PostRaised ''Connection refused''"
          "''http://localhost:11434''" "''list the files''" "''llama3''" "[]" False]
        generate_never_raises [of "\<lambda>url body. PostReturned \<lparr> status_error = Some ''404 Client Error'',
                                          json_result = Inr JNull \<rparr>"
          "''http://localhost:11434''" "''list the files''" "''llama3''" "[]" False]
  by simp

subsection \<open>The verification turn\<close>

text \<open>
  The warning is raised once more than three targets are recorded and the last three
  are not all distinct.
\<close>

lemma loop_warning_when_recorded:
  assumes "length ds > 3" and "\<not> distinct (drop (length ds - 3) ds)"
  shows "loop_warning ds = loop_warning_text"
proof -
  have "length (remdups (drop (length ds - 3) ds)) \<noteq> length (drop (length ds - 3) ds)"
    using assms(2) by (metis distinct_remdups length_remdups_eq remdups_id_iff_distinct)
  moreover have "length (remdups (drop (length ds - 3) ds)) \<le> length (drop (length ds - 3) ds)"
    by (rule length_remdups_leq)
  ultimately show ?thesis using assms(1) by (simp add: loop_warning_def Let_def)
qed

text \<open>
  C8.  The claim is that recorded targets ending in a sequence such as A, B, A put the
  warning into the next verification prompt.  With exactly these three targets recorded
  the guard \<^verbatim>\<open>len(searched_dirs) > 3\<close> is false and the warning is empty: the prompt is
  the one without a warning.
\<close>

theorem loop_warning_absent_for_three_targets:
  "loop_warning [''/home/u/a'', ''/home/u/b'', ''/home/u/a''] = []
   \<and> verification_prompt g s p d f n m [''/home/u/a'', ''/home/u/b'', ''/home/u/a'']
       = prompt_head g s p d f n m
         @ ''  - /home/u/a'' @ [CHR 0x0A] @ ''  - /home/u/b'' @ [CHR 0x0A] @ ''  - /home/u/a''
         @ prompt_rules"
  by (simp add: loop_warning_def verification_prompt_def searched_dirs_str_def)





subsection \<open>The executor\<close>

lemma execute_steps_acc:
  "execute_steps H r ss acc w
     = (acc @ fst (execute_steps H r ss [] w), snd (execute_steps H r ss [] w))"
proof (induction ss arbitrary: acc w)
  case Nil
  show ?case by simp
next
  case (Cons s ss)
  obtain out stop w' where rs: "run_step H r s w = (out, stop, w')"
    by (cases "run_step H r s w") auto
  show ?case
    using Cons.IH [of "acc @ out" w'] Cons.IH [of out w'] rs by simp
qed

text \<open>A well-formed step appends one line, marked by how its action ended.\<close>

lemma run_step_well_formed:
  assumes "well_formed_step s"
  obtains line stop w' where "run_step H r s w = ([line], stop, w')"
    and "prefix (if stop then cross_mark else check_mark) line"
proof -
  from assms obtain d p where s: "s = JObj d" and p: "dict_get d ''params'' (JObj []) = JObj p"
    by (auto simp: well_formed_step_def split: json.splits)
  let ?a = "dict_get d ''action'' (JStr [])"
  obtain res w' where ea: "execute_action H r ?a p w = (res, w')"
    by (cases "execute_action H r ?a p w") auto
  show ?thesis
  proof (cases res)
    case (Inl e)
    with s p ea have "run_step H r s w
        = ([cross_mark @ '' '' @ py_str r (dict_get d ''description'' ?a) @ '': Error - '' @ e], True, w')"
      by (simp add: run_step_def normalize_params_def Let_def)
    then show ?thesis by (rule that) simp
  next
    case (Inr result)
    with s p ea have "run_step H r s w
        = ([check_mark @ '' '' @ py_str r (dict_get d ''description'' ?a) @ '': '' @ result], False, w')"
      by (simp add: run_step_def normalize_params_def Let_def)
    then show ?thesis by (rule that) simp
  qed
qed

lemma execute_steps_Cons:
  assumes "run_step H r s w = ([line], stop, w')"
  shows "execute_steps H r (s # ss) [] w
           = (if stop then ([line], w')
              else (line # fst (execute_steps H r ss [] w'), snd (execute_steps H r ss [] w')))"
  using assms execute_steps_acc [of H r ss "[line]" w'] by simp

lemma first_failure_Cons:
  assumes "run_step H r s w = (out, stop, w')"
  shows "first_failure H r (s # ss) w
           = (if stop then Some 0 else map_option Suc (first_failure H r ss w'))"
  using assms by simp

lemma execute_steps_all_run:
  assumes "\<forall>s \<in> set ss. well_formed_step s" and "first_failure H r ss w = None"
  shows "length (fst (execute_steps H r ss [] w)) = length ss"
  using assms
proof (induction ss arbitrary: w)
  case Nil
  show ?case by simp
next
  case (Cons s ss)
  from Cons.prems(1) have "well_formed_step s" by simp
  then obtain line stop w' where rs: "run_step H r s w = ([line], stop, w')"
    by (rule run_step_well_formed)
  from Cons.prems(2) rs have ns: "\<not> stop" and ff: "first_failure H r ss w' = None"
    by (auto simp: first_failure_Cons split: if_splits)
  from Cons.IH [OF _ ff] Cons.prems(1) have "length (fst (execute_steps H r ss [] w')) = length ss"
    by simp
  with ns show ?case by (simp add: execute_steps_Cons [OF rs] del: execute_steps.simps)
qed

lemma execute_steps_halt:
  assumes "\<forall>s \<in> set ss. well_formed_step s" and "first_failure H r ss w = Some i"
  shows "i < length ss \<and> length (fst (execute_steps H r ss [] w)) = Suc i
       \<and> execute_steps H r ss [] w = execute_steps H r (take (Suc i) ss) [] w"
  using assms
proof (induction ss arbitrary: w i)
  case Nil
  then show ?case by simp
next
  case (Cons s ss)
  from Cons.prems(1) have "well_formed_step s" by simp
  then obtain line stop w' where rs: "run_step H r s w = ([line], stop, w')"
    by (rule run_step_well_formed)
  show ?case
  proof (cases stop)
    case True
    with Cons.prems(2) rs have "i = 0" by (simp add: first_failure_Cons)
    with True show ?thesis
      using execute_steps_Cons [OF rs, of ss] execute_steps_Cons [OF rs, of "[]"]
      by (simp del: execute_steps.simps)
  next
    case False
    with Cons.prems(2) rs obtain i' where i: "i = Suc i'" and ff: "first_failure H r ss w' = Some i'"
      by (auto simp: first_failure_Cons)
    from Cons.prems(1) have wf: "\<forall>s \<in> set ss. well_formed_step s" by simp
    note ih = Cons.IH [OF wf ff]
    from ih have l: "i' < length ss" by blast
    from ih have n: "length (fst (execute_steps H r ss [] w')) = Suc i'" by blast
    from ih have e: "execute_steps H r ss [] w' = execute_steps H r (take (Suc i') ss) [] w'"
      by blast
    have "execute_steps H r (s # ss) [] w
            = (line # fst (execute_steps H r ss [] w'), snd (execute_steps H r ss [] w'))"
      using False by (simp add: execute_steps_Cons [OF rs] del: execute_steps.simps)
    moreover have "execute_steps H r (take (Suc i) (s # ss)) [] w
            = (line # fst (execute_steps H r (take (Suc i') ss) [] w'),
               snd (execute_steps H r (take (Suc i') ss) [] w'))"
      using False i by (simp add: execute_steps_Cons [OF rs] del: execute_steps.simps)
    ultimately have "execute_steps H r (s # ss) [] w = execute_steps H r (take (Suc i) (s # ss)) [] w"
      and "length (fst (execute_steps H r (s # ss) [] w)) = Suc i"
      using e n i by simp_all
    with l i show ?thesis by simp
  qed
qed

lemma execute_steps_marks:
  assumes "\<forall>s \<in> set ss. well_formed_step s" and "k < length (fst (execute_steps H r ss [] w))"
  shows "prefix (if first_failure H r ss w = Some k then cross_mark else check_mark)
           (fst (execute_steps H r ss [] w) ! k)"
  using assms
proof (induction ss arbitrary: w k)
  case Nil
  then show ?case by simp
next
  case (Cons s ss)
  from Cons.prems(1) have "well_formed_step s" by simp
  then obtain line stop w' where rs: "run_step H r s w = ([line], stop, w')"
    and mk: "prefix (if stop then cross_mark else check_mark) line"
    by (rule run_step_well_formed)
  show ?case
  proof (cases stop)
    case True
    with Cons.prems(2) have "k = 0" by (simp add: execute_steps_Cons [OF rs] del: execute_steps.simps)
    with True mk show ?thesis
      by (simp add: execute_steps_Cons [OF rs] first_failure_Cons [OF rs]
            del: execute_steps.simps first_failure.simps)
  next
    case False
    show ?thesis
    proof (cases k)
      case 0
      with False mk show ?thesis
        by (simp add: execute_steps_Cons [OF rs] first_failure_Cons [OF rs]
              del: execute_steps.simps first_failure.simps)
    next
      case (Suc k')
      with False Cons.prems(2) have "k' < length (fst (execute_steps H r ss [] w'))"
        by (simp add: execute_steps_Cons [OF rs] del: execute_steps.simps)
      from Cons.IH [OF _ this] Cons.prems(1)
      have "prefix (if first_failure H r ss w' = Some k' then cross_mark else check_mark)
              (fst (execute_steps H r ss [] w') ! k')" by simp
      with False Suc show ?thesis
        by (auto simp add: execute_steps_Cons [OF rs] first_failure_Cons [OF rs]
              simp del: execute_steps.simps first_failure.simps)
    qed
  qed
qed

lemma execute_steps_in_order:
  "prefix (fst (execute_steps H r (take j ss) [] w)) (fst (execute_steps H r ss [] w))"
proof (induction ss arbitrary: w j)
  case Nil
  show ?case by simp
next
  case (Cons s ss)
  obtain out stop w' where rs: "run_step H r s w = (out, stop, w')"
    by (cases "run_step H r s w") auto
  show ?case
  proof (cases j)
    case 0
    then show ?thesis by simp
  next
    case (Suc j')
    show ?thesis
      using Cons.IH [of j' w'] rs Suc
        execute_steps_acc [of H r ss out w'] execute_steps_acc [of H r "take j' ss" out w']
      by simp
  qed
qed

text \<open>
  C2.  For a plan whose steps are well-formed action records, \<^verbatim>\<open>execute\<close> runs the
  steps in array order (the outcomes of any initial part of the batch begin the outcomes
  of the whole), with one outcome per attempted step, a check mark for an action that
  returned and a cross for the one that raised.  If no action raises there are as many
  outcomes as steps.  If step \<open>i\<close> is the first whose action raises, there are \<open>i + 1\<close>
  outcomes, and the results and the world are those of the batch cut after that step:
  no later handler runs.  The example is a batch of three steps whose second fails.
\<close>

theorem execute_halts_at_first_failure:
  assumes "steps plan = JList step_list" and "\<forall>s \<in> set step_list. well_formed_step s"
  shows "execute handlers repr plan w = Inr (execute_steps handlers repr step_list [] w)
     \<and> (\<forall>j. prefix (fst (execute_steps handlers repr (take j step_list) [] w))
                   (fst (execute_steps handlers repr step_list [] w)))
     \<and> (\<forall>k < length (fst (execute_steps handlers repr step_list [] w)).
           prefix (if first_failure handlers repr step_list w = Some k then cross_mark else check_mark)
                  (fst (execute_steps handlers repr step_list [] w) ! k))
     \<and> (first_failure handlers repr step_list w = None
          \<longrightarrow> length (fst (execute_steps handlers repr step_list [] w)) = length step_list)
     \<and> (\<forall>i. first_failure handlers repr step_list w = Some i
          \<longrightarrow> i < length step_list
            \<and> length (fst (execute_steps handlers repr step_list [] w)) = Suc i
            \<and> execute_steps handlers repr step_list [] w
                = execute_steps handlers repr (take (Suc i) step_list) [] w)"
proof (intro conjI allI impI)
  show "execute handlers repr plan w = Inr (execute_steps handlers repr step_list [] w)"
    using assms(1) by (simp add: execute_def)
next
  fix j
  show "prefix (fst (execute_steps handlers repr (take j step_list) [] w))
               (fst (execute_steps handlers repr step_list [] w))"
    by (rule execute_steps_in_order)
next
  fix k
  assume "k < length (fst (execute_steps handlers repr step_list [] w))"
  with assms(2)
  show "prefix (if first_failure handlers repr step_list w = Some k then cross_mark else check_mark)
               (fst (execute_steps handlers repr step_list [] w) ! k)"
    by (rule execute_steps_marks)
next
  assume "first_failure handlers repr step_list w = None"
  with assms(2) show "length (fst (execute_steps handlers repr step_list [] w)) = length step_list"
    by (rule execute_steps_all_run)
next
  fix i
  assume ff: "first_failure handlers repr step_list w = Some i"
  note h = execute_steps_halt [OF assms(2) ff]
  from h show "i < length step_list" by blast
  from h show "length (fst (execute_steps handlers repr step_list [] w)) = Suc i" by blast
  from h show "execute_steps handlers repr step_list [] w
                 = execute_steps handlers repr (take (Suc i) step_list) [] w" by blast
qed

theorem execute_halts_at_first_failure_witness:
  "execute recording_handlers (\<lambda>v. [])
      (clarification_plan\<lparr> steps := JList [go_to_tmp, append_note, remove_old_log] \<rparr>) []
     = Inr ([check_mark @ '' Go to tmp: done'',
             cross_mark @ '' Append note: Error - [Errno 13] Permission denied''],
            [(''NAVIGATE'', [(''path'', JStr ''/tmp'')]),
             (''APPEND_TEXT'', [(''text'', JStr ''x''), (''path'', JStr ''/etc/hosts'')])])
   \<and> first_failure recording_handlers (\<lambda>v. []) [go_to_tmp, append_note, remove_old_log] [] = Some 1
   \<and> length (fst (execute_steps recording_handlers (\<lambda>v. [])
                     [go_to_tmp, append_note, remove_old_log] [] [])) = 2"
proof -
  have e: "execute_steps recording_handlers (\<lambda>v. []) [go_to_tmp, append_note, remove_old_log] [] []
     = ([check_mark @ '' Go to tmp: done'',
         cross_mark @ '' Append note: Error - [Errno 13] Permission denied''],
        [(''NAVIGATE'', [(''path'', JStr ''/tmp'')]),
         (''APPEND_TEXT'', [(''text'', JStr ''x''), (''path'', JStr ''/etc/hosts'')])])"
    by (simp add: go_to_tmp_def append_note_def remove_old_log_def run_step_def dict_get_def
          normalize_params_def execute_action_def action_names_def recording_handlers_def
          py_str_def Let_def)
  have f: "first_failure recording_handlers (\<lambda>v. []) [go_to_tmp, append_note, remove_old_log] []
             = Some 1"
    by (simp add: go_to_tmp_def append_note_def remove_old_log_def run_step_def dict_get_def
          normalize_params_def execute_action_def action_names_def recording_handlers_def
          py_str_def Let_def)
  have s: "steps (clarification_plan\<lparr> steps := JList [go_to_tmp, append_note, remove_old_log] \<rparr>)
             = JList [go_to_tmp, append_note, remove_old_log]"
    by simp
  have wf: "\<forall>s \<in> set [go_to_tmp, append_note, remove_old_log]. well_formed_step s"
    by (simp add: go_to_tmp_def append_note_def remove_old_log_def well_formed_step_def dict_get_def)
  note t = execute_halts_at_first_failure [OF s wf, of recording_handlers "\<lambda>v. []" "[]"]
  from t have x: "execute recording_handlers (\<lambda>v. [])
      (clarification_plan\<lparr> steps := JList [go_to_tmp, append_note, remove_old_log] \<rparr>) []
     = Inr (execute_steps recording_handlers (\<lambda>v. []) [go_to_tmp, append_note, remove_old_log] [] [])"
    by (rule conjunct1)
  from t f have n: "length (fst (execute_steps recording_handlers (\<lambda>v. [])
                     [go_to_tmp, append_note, remove_old_log] [] [])) = Suc 1"
    by blast
  have two: "Suc 1 = (2::nat)" by simp
  show ?thesis
  proof (intro conjI)
    show "execute recording_handlers (\<lambda>v. [])
      (clarification_plan\<lparr> steps := JList [go_to_tmp, append_note, remove_old_log] \<rparr>) []
     = Inr ([check_mark @ '' Go to tmp: done'',
             cross_mark @ '' Append note: Error - [Errno 13] Permission denied''],
            [(''NAVIGATE'', [(''path'', JStr ''/tmp'')]),
             (''APPEND_TEXT'', [(''text'', JStr ''x''), (''path'', JStr ''/etc/hosts'')])])"
      by (simp only: x e)
    show "first_failure recording_handlers (\<lambda>v. []) [go_to_tmp, append_note, remove_old_log] []
            = Some 1"
      by (rule f)
    show "length (fst (execute_steps recording_handlers (\<lambda>v. [])
                     [go_to_tmp, append_note, remove_old_log] [] [])) = 2"
      by (simp only: n two)
  qed
qed

lemma run_step_navigate:
  assumes "map_of d ''action'' = Some (JStr ''NAVIGATE'')" and "map_of d ''params'' = Some (JStr p)"
  shows "run_step H r (JObj d) w
           = run_step H r (JObj (AList.update ''params'' (JObj [(''path'', JStr p)]) d)) w"
proof -
  have n1: "normalize_params r (JStr ''NAVIGATE'') (JStr p) = ([], [(''path'', JStr p)])"
    by (simp add: normalize_params_def)
  have n2: "normalize_params r (JStr ''NAVIGATE'') (JObj [(''path'', JStr p)])
              = ([], [(''path'', JStr p)])"
    by (simp add: normalize_params_def)
  show ?thesis
    using assms
    by (simp add: run_step_def dict_get_def Let_def update_conv' n1 n2
          split: prod.splits sum.splits)
qed

lemma execute_steps_same_step:
  assumes "\<And>w'. run_step H r s w' = run_step H r s' w'"
  shows "execute_steps H r (pre @ s # post) acc w = execute_steps H r (pre @ s' # post) acc w"
proof (induction pre arbitrary: acc w)
  case Nil
  show ?case using assms [of w] by simp
next
  case (Cons a pre)
  obtain out stop w' where rs: "run_step H r a w = (out, stop, w')"
    by (cases "run_step H r a w") auto
  show ?case using Cons.IH [of "acc @ out" w'] rs by simp
qed

text \<open>
  C9.  A step of action \<^verbatim>\<open>NAVIGATE\<close> whose parameters are the string \<open>p\<close> is
  normalised to the parameters \<^verbatim>\<open>{"path": p}\<close>, without a warning; a batch that holds
  the step gives the same results and leaves the same world as the batch in which the
  step carries the dict, for every behaviour of the handlers.
\<close>

theorem navigate_scalar_params_same_dispatch:
  assumes "map_of d ''action'' = Some (JStr ''NAVIGATE'')" and "map_of d ''params'' = Some (JStr p)"
  shows "normalize_params repr (JStr ''NAVIGATE'') (JStr p)
           = normalize_params repr (JStr ''NAVIGATE'') (JObj [(''path'', JStr p)])
       \<and> execute handlers repr (plan\<lparr> steps := JList (pre @ JObj d # post) \<rparr>) w
           = execute handlers repr
               (plan\<lparr> steps := JList (pre @ JObj (AList.update ''params'' (JObj [(''path'', JStr p)]) d) # post) \<rparr>) w"
  using execute_steps_same_step [of handlers repr "JObj d"
          "JObj (AList.update ''params'' (JObj [(''path'', JStr p)]) d)" pre post "[]" w,
          OF run_step_navigate [OF assms]]
  by (simp add: execute_def normalize_params_def)

theorem navigate_scalar_params_same_dispatch_witness:
  "execute recording_handlers (\<lambda>v. [])
      (clarification_plan\<lparr> steps := JList [JObj [(''action'', JStr ''NAVIGATE''),
                                                  (''params'', JStr ''/tmp/x'')]] \<rparr>) []
     = execute recording_handlers (\<lambda>v. [])
      (clarification_plan\<lparr> steps := JList [JObj [(''action'', JStr ''NAVIGATE''),
                                                  (''params'', JObj [(''path'', JStr ''/tmp/x'')])]] \<rparr>) []
   \<and> execute recording_handlers (\<lambda>v. [])
      (clarification_plan\<lparr> steps := JList [JObj [(''action'', JStr ''NAVIGATE''),
                                                  (''params'', JStr ''/tmp/x'')]] \<rparr>) []
     = Inr ([check_mark @ '' NAVIGATE: done''], [(''NAVIGATE'', [(''path'', JStr ''/tmp/x'')])])"
proof -
  have a: "map_of [(''action'', JStr ''NAVIGATE''), (''params'', JStr ''/tmp/x'')] ''action''
             = Some (JStr ''NAVIGATE'')"
    by simp
  have b: "map_of [(''action'', JStr ''NAVIGATE''), (''params'', JStr ''/tmp/x'')] ''params''
             = Some (JStr ''/tmp/x'')"
    by simp
  have c: "execute recording_handlers (\<lambda>v. [])
      (clarification_plan\<lparr> steps := JList [JObj [(''action'', JStr ''NAVIGATE''),
                                                  (''params'', JStr ''/tmp/x'')]] \<rparr>) []
     = Inr ([check_mark @ '' NAVIGATE: done''], [(''NAVIGATE'', [(''path'', JStr ''/tmp/x'')])])"
    by (simp add: execute_def run_step_def dict_get_def normalize_params_def execute_action_def
          action_names_def recording_handlers_def py_str_def Let_def)
  note t = navigate_scalar_params_same_dispatch [OF a b, where repr = "\<lambda>v. []"
         and handlers = recording_handlers and plan = clarification_plan
         and pre = "[]" and post = "[]" and w = "[]"]
  have u: "AList.update ''params'' (JObj [(''path'', JStr ''/tmp/x'')])
             [(''action'', JStr ''NAVIGATE''), (''params'', JStr ''/tmp/x'')]
           = [(''action'', JStr ''NAVIGATE''), (''params'', JObj [(''path'', JStr ''/tmp/x'')])]"
    by simp
  from t have "execute recording_handlers (\<lambda>v. [])
      (clarification_plan\<lparr> steps := JList ([] @ JObj [(''action'', JStr ''NAVIGATE''),
                                                  (''params'', JStr ''/tmp/x'')] # []) \<rparr>) []
     = execute recording_handlers (\<lambda>v. [])
      (clarification_plan\<lparr> steps := JList ([] @ JObj (AList.update ''params''
           (JObj [(''path'', JStr ''/tmp/x'')])
           [(''action'', JStr ''NAVIGATE''), (''params'', JStr ''/tmp/x'')]) # []) \<rparr>) []"
    by (rule conjunct2)
  then have "execute recording_handlers (\<lambda>v. [])
      (clarification_plan\<lparr> steps := JList [JObj [(''action'', JStr ''NAVIGATE''),
                                                  (''params'', JStr ''/tmp/x'')]] \<rparr>) []
     = execute recording_handlers (\<lambda>v. [])
      (clarification_plan\<lparr> steps := JList [JObj [(''action'', JStr ''NAVIGATE''),
                                                  (''params'', JObj [(''path'', JStr ''/tmp/x'')])]] \<rparr>) []"
    by (simp only: append_Nil u)
  with c show ?thesis by (intro conjI)
qed

end
